theory Spec2Isabelle
  imports Main "HOL-Library.List_Lexorder" "HOL-Library.Sublist"
begin

section \<open>Text\<close>

text \<open>
  A Python \<^verbatim>\<open>str\<close> is a sequence of code points, each below \<open>0x110000\<close>; it is
  modelled as a list of natural numbers. Comparison of two such lists is the lexicographic
  order of \<^verbatim>\<open>HOL-Library.List_Lexorder\<close>, which is how Python compares strings.
  \<open>ascii\<close> writes a literal.
\<close>

type_synonym pystr = "nat list"

definition ascii :: "string \<Rightarrow> pystr" where
  "ascii s = map of_char s"

text \<open>\<^verbatim>\<open>s.split('\n')\<close> and \<^verbatim>\<open>'\n'.join(lines)\<close>; the line break is code point 10.\<close>

fun split_nl :: "pystr \<Rightarrow> pystr list" where
  "split_nl [] = [[]]"
| "split_nl (c # cs) =
     (if c = 10 then [] # split_nl cs
      else (case split_nl cs of [] \<Rightarrow> [[c]] | l # ls \<Rightarrow> (c # l) # ls))"

fun join_nl :: "pystr list \<Rightarrow> pystr" where
  "join_nl [] = []"
| "join_nl [l] = l"
| "join_nl (l # ls) = l @ 10 # join_nl ls"

text \<open>
  \<^verbatim>\<open>xs[i:]\<close> and \<^verbatim>\<open>xs[:i]\<close> for a Python integer \<open>i\<close>: a negative index counts from
  the end, and an index out of range is clipped.
\<close>

definition slice_from :: "'a list \<Rightarrow> int \<Rightarrow> 'a list" where
  "slice_from xs i =
     (let n = int (length xs);
          j = (if i < 0 then max 0 (n + i) else min i n)
      in drop (nat j) xs)"

definition slice_to :: "'a list \<Rightarrow> int \<Rightarrow> 'a list" where
  "slice_to xs i =
     (let n = int (length xs);
          j = (if i < 0 then max 0 (n + i) else min i n)
      in take (nat j) xs)"

text \<open>\<^verbatim>\<open>q in s\<close> on strings: \<open>q\<close> occurs in \<open>s\<close> as a contiguous piece.\<close>

fun py_in :: "pystr \<Rightarrow> pystr \<Rightarrow> bool" where
  "py_in q [] = (q = [])"
| "py_in q (c # cs) = (prefix q (c # cs) \<or> py_in q cs)"

section \<open>The escape decoder\<close>

text \<open>
  \<^verbatim>\<open>re.sub(r'\\u([0-9a-fA-F]{4})', replace, content)\<close>: the text is scanned from the left;
  where a backslash (92), the letter u (117) and four hexadecimal digits stand, the six
  characters are replaced by what \<open>replace\<close> returns and the scan resumes after them.
\<close>

definition is_hex :: "nat \<Rightarrow> bool" where
  "is_hex c = ((48 \<le> c \<and> c \<le> 57) \<or> (65 \<le> c \<and> c \<le> 70) \<or> (97 \<le> c \<and> c \<le> 102))"

definition hex_val :: "nat \<Rightarrow> nat" where
  "hex_val c = (if c \<le> 57 then c - 48 else if c \<le> 70 then c - 55 else c - 87)"

definition int16 :: "nat \<Rightarrow> nat \<Rightarrow> nat \<Rightarrow> nat \<Rightarrow> nat" where
  "int16 h1 h2 h3 h4 = ((hex_val h1 * 16 + hex_val h2) * 16 + hex_val h3) * 16 + hex_val h4"

definition is_escape :: "nat \<Rightarrow> nat \<Rightarrow> nat \<Rightarrow> nat \<Rightarrow> nat \<Rightarrow> nat \<Rightarrow> bool" where
  "is_escape b u h1 h2 h3 h4 =
     (b = 92 \<and> u = 117 \<and> is_hex h1 \<and> is_hex h2 \<and> is_hex h3 \<and> is_hex h4)"

definition replace :: "nat \<Rightarrow> nat \<Rightarrow> nat \<Rightarrow> nat \<Rightarrow> nat \<Rightarrow> nat \<Rightarrow> pystr" where
  "replace b u h1 h2 h3 h4 =
     (let codepoint = int16 h1 h2 h3 h4
      in if 0xD800 \<le> codepoint \<and> codepoint \<le> 0xDFFF then [b, u, h1, h2, h3, h4]
         else [codepoint])"

fun re_sub :: "pystr \<Rightarrow> pystr" where
  "re_sub (b # u # h1 # h2 # h3 # h4 # rest) =
     (if is_escape b u h1 h2 h3 h4 then replace b u h1 h2 h3 h4 @ re_sub rest
      else b # re_sub (u # h1 # h2 # h3 # h4 # rest))"
| "re_sub (c # cs) = c # re_sub cs"
| "re_sub [] = []"

text \<open>
  \<^verbatim>\<open>decoded.encode('utf-8', errors='surrogatepass')\<close>: every code point, a surrogate
  too, becomes its one to four bytes.
\<close>

definition utf8_encode1 :: "nat \<Rightarrow> nat list" where
  "utf8_encode1 c =
     (if c < 0x80 then [c]
      else if c < 0x800 then [0xC0 + c div 64, 0x80 + c mod 64]
      else if c < 0x10000 then [0xE0 + c div 4096, 0x80 + c div 64 mod 64, 0x80 + c mod 64]
      else [0xF0 + c div 262144, 0x80 + c div 4096 mod 64, 0x80 + c div 64 mod 64,
            0x80 + c mod 64])"

definition utf8_encode_surrogatepass :: "pystr \<Rightarrow> nat list" where
  "utf8_encode_surrogatepass s = concat (map utf8_encode1 s)"

text \<open>
  \<^verbatim>\<open>.decode('utf-8', errors='replace')\<close>: the strict decoder of the runtime, which
  rejects overlong forms, surrogates and values above \<open>0x10FFFF\<close>; the bytes of an
  invalid sequence up to the first byte that cannot continue it become one \<open>U+FFFD\<close>,
  and decoding resumes at that byte.
\<close>

definition is_cont :: "nat \<Rightarrow> bool" where
  "is_cont b = (0x80 \<le> b \<and> b < 0xC0)"

definition bad_second :: "nat \<Rightarrow> nat \<Rightarrow> bool" where
  "bad_second b b1 =
     (\<not> is_cont b1 \<or> (b = 0xE0 \<and> b1 < 0xA0) \<or> (b = 0xED \<and> 0xA0 \<le> b1)
      \<or> (b = 0xF0 \<and> b1 < 0x90) \<or> (b = 0xF4 \<and> 0x90 \<le> b1))"

fun utf8_decode_replace :: "nat list \<Rightarrow> pystr" where
  "utf8_decode_replace [] = []"
| "utf8_decode_replace (b # bs) =
     (if b < 0x80 then b # utf8_decode_replace bs
      else if b < 0xC2 \<or> 0xF5 \<le> b then 0xFFFD # utf8_decode_replace bs
      else (case bs of
        [] \<Rightarrow> [0xFFFD]
      | b1 # r1 \<Rightarrow>
          if bad_second b b1 then 0xFFFD # utf8_decode_replace bs
          else if b < 0xE0 then ((b - 0xC0) * 64 + (b1 - 0x80)) # utf8_decode_replace r1
          else (case r1 of
            [] \<Rightarrow> [0xFFFD]
          | b2 # r2 \<Rightarrow>
              if \<not> is_cont b2 then 0xFFFD # utf8_decode_replace r1
              else if b < 0xF0 then
                ((b - 0xE0) * 4096 + (b1 - 0x80) * 64 + (b2 - 0x80)) # utf8_decode_replace r2
              else (case r2 of
                [] \<Rightarrow> [0xFFFD]
              | b3 # r3 \<Rightarrow>
                  if \<not> is_cont b3 then 0xFFFD # utf8_decode_replace r2
                  else ((b - 0xF0) * 262144 + (b1 - 0x80) * 4096 + (b2 - 0x80) * 64
                        + (b3 - 0x80)) # utf8_decode_replace r3))))"

definition decode_unicode_escapes :: "pystr \<Rightarrow> pystr" where
  "decode_unicode_escapes content =
     (let decoded = re_sub content
      in utf8_decode_replace (utf8_encode_surrogatepass decoded))"

text \<open>
  What encoding and decoding again does to one code point, as proved below: a surrogate
  becomes three replacement characters, one for each of its bytes, and any other code
  point of a \<^verbatim>\<open>str\<close> is unchanged.
\<close>

definition roundtrip1 :: "nat \<Rightarrow> pystr" where
  "roundtrip1 c =
     (if 0xD800 \<le> c \<and> c \<le> 0xDFFF then [0xFFFD, 0xFFFD, 0xFFFD]
      else if c < 0x110000 then [c]
      else [0xFFFD, 0xFFFD, 0xFFFD, 0xFFFD])"

section \<open>The file system\<close>

text \<open>
  The state of the file system, as far as the program reads it. Its first part is the list
  of the files of \<^verbatim>\<open>/mnt/transcripts\<close>, in the order the operating system yields them.
  An entry carries what the program reads of it: its name, \<^verbatim>\<open>st_size\<close>, the ISO
  rendering of \<^verbatim>\<open>st_mtime\<close> that \<^verbatim>\<open>datetime.fromtimestamp(...).isoformat()\<close> gives,
  and the text that \<^verbatim>\<open>f.read()\<close> returns when the file is opened as UTF-8 text. Its
  second part says what the operating system finds at any other path, the transcript
  directory itself included: nothing, a file with its text, or a directory.
\<close>

record dir_entry =
  entry_name :: pystr
  st_size :: nat
  st_mtime_iso :: pystr
  entry_text :: pystr

datatype node = File pystr | Directory

record file_system =
  entries :: "dir_entry list"
  elsewhere :: "pystr \<Rightarrow> node option"

datatype error =
    FileNotFoundError
  | IsADirectoryError
  | JSONDecodeError
  | RecursionError
  | ValueError
  | AttributeError
  | TypeError

record transcript =
  name :: pystr
  size_bytes :: nat
  modified :: pystr
  path :: pystr

definition TRANSCRIPTS_DIR :: pystr where
  "TRANSCRIPTS_DIR = ascii ''/mnt/transcripts''"

text \<open>
  \<^verbatim>\<open>str(f)\<close> for a path \<open>f\<close> that \<^verbatim>\<open>glob\<close> yields: the directory, a slash (47) and
  the name of the entry. Then \<^verbatim>\<open>Path(p).name\<close>.
\<close>

definition glob_path :: "pystr \<Rightarrow> pystr \<Rightarrow> pystr" where
  "glob_path dir n = dir @ 47 # n"

definition path_name :: "pystr \<Rightarrow> pystr" where
  "path_name p = rev (takeWhile (\<lambda>c. c \<noteq> 47) (rev p))"

text \<open>
  \<^verbatim>\<open>TRANSCRIPTS_DIR.glob("*.txt")\<close> yields the entries whose name ends in
  \<^verbatim>\<open>.txt\<close>; \<^verbatim>\<open>sorted\<close> orders the paths of one directory by name, and is
  stable.
\<close>

definition glob_txt :: "file_system \<Rightarrow> dir_entry list" where
  "glob_txt d = filter (\<lambda>f. suffix (ascii ''.txt'') (entry_name f)) (entries d)"

fun collect_transcripts :: "dir_entry list \<Rightarrow> transcript list" where
  "collect_transcripts [] = []"
| "collect_transcripts (f # fs) =
     (if entry_name f = ascii ''journal.txt'' then collect_transcripts fs
      else \<lparr>name = entry_name f, size_bytes = st_size f, modified = st_mtime_iso f,
            path = glob_path TRANSCRIPTS_DIR (entry_name f)\<rparr> # collect_transcripts fs)"

definition get_transcript_list :: "file_system \<Rightarrow> transcript list" where
  "get_transcript_list d = collect_transcripts (sort_key entry_name (glob_txt d))"

text \<open>
  \<^verbatim>\<open>sorted(xs, key=k, reverse=True)\<close>: the list is reversed, sorted by a stable sort
  and reversed again, so that entries of equal key keep their order.
\<close>

definition sorted_reverse :: "('a \<Rightarrow> 'k::linorder) \<Rightarrow> 'a list \<Rightarrow> 'a list" where
  "sorted_reverse k xs = rev (sort_key k (rev xs))"

definition get_current_transcript :: "file_system \<Rightarrow> pystr option" where
  "get_current_transcript d =
     (let transcripts = get_transcript_list d
      in if transcripts = [] then None
         else Some (path (hd (sorted_reverse name transcripts))))"

section \<open>Paths\<close>

text \<open>
  \<^verbatim>\<open>TRANSCRIPTS_DIR / args.file\<close> of \<^verbatim>\<open>pathlib\<close>, as the string that
  \<^verbatim>\<open>exists()\<close> and \<^verbatim>\<open>open()\<close> receive. A right operand that begins with a slash
  replaces the directory. The text is cut at the slashes; the empty components and the
  components \<^verbatim>\<open>.\<close> (46) are dropped, the others (\<^verbatim>\<open>..\<close> too) are kept and joined by
  single slashes after the root, which is two slashes when the text begins with exactly
  two and one slash otherwise.
\<close>

fun split_slash :: "pystr \<Rightarrow> pystr list" where
  "split_slash [] = [[]]"
| "split_slash (c # cs) =
     (if c = 47 then [] # split_slash cs
      else (case split_slash cs of [] \<Rightarrow> [[c]] | l # ls \<Rightarrow> (c # l) # ls))"

fun join_slash :: "pystr list \<Rightarrow> pystr" where
  "join_slash [] = []"
| "join_slash [l] = l"
| "join_slash (l # ls) = l @ 47 # join_slash ls"

definition posix_root :: "pystr \<Rightarrow> pystr" where
  "posix_root s =
     (if prefix [47, 47] s \<and> \<not> prefix [47, 47, 47] s then [47, 47]
      else if prefix [47] s then [47]
      else [])"

definition posix_str :: "pystr \<Rightarrow> pystr" where
  "posix_str s =
     (let root = posix_root s;
          parts = filter (\<lambda>c. c \<noteq> [] \<and> c \<noteq> [46]) (split_slash s)
      in if root = [] \<and> parts = [] then [46] else root @ join_slash parts)"

definition truediv :: "pystr \<Rightarrow> pystr \<Rightarrow> pystr" where
  "truediv dir s = (if prefix [47] s then posix_str s else posix_str (dir @ 47 # s))"

section \<open>The reader\<close>

text \<open>
  What the operating system finds at a path: the file of the transcript directory that
  has this path, or else what the rest of the file system holds there. \<^verbatim>\<open>open\<close> raises
  when there is nothing, or a directory.
\<close>

definition resolve :: "file_system \<Rightarrow> pystr \<Rightarrow> node option" where
  "resolve d p =
     (case find (\<lambda>f. glob_path TRANSCRIPTS_DIR (entry_name f) = p) (entries d) of
        Some f \<Rightarrow> Some (File (entry_text f))
      | None \<Rightarrow> elsewhere d p)"

definition open_read :: "file_system \<Rightarrow> pystr \<Rightarrow> error + pystr" where
  "open_read d p =
     (case resolve d p of
        None \<Rightarrow> Inl FileNotFoundError
      | Some Directory \<Rightarrow> Inl IsADirectoryError
      | Some (File content) \<Rightarrow> Inr content)"

text \<open>
  \<open>tail\<close> is \<open>None\<close> or an integer; \<^verbatim>\<open>if tail:\<close> holds for an integer other
  than zero.
\<close>

definition read_transcript :: "file_system \<Rightarrow> pystr \<Rightarrow> int option \<Rightarrow> error + pystr" where
  "read_transcript d p tail =
     (case open_read d p of
        Inl e \<Rightarrow> Inl e
      | Inr content \<Rightarrow>
          (let decoded = decode_unicode_escapes content
           in case tail of
                None \<Rightarrow> Inr decoded
              | Some t \<Rightarrow>
                  if t \<noteq> 0 then
                    (let lines = split_nl decoded in Inr (join_nl (slice_from lines (- t))))
                  else Inr decoded))"

section \<open>Search\<close>

text \<open>
  \<^verbatim>\<open>str.lower()\<close>. On a text of ASCII characters it maps the letters A to Z to a to
  z and nothing else. On any other text it is the lowercasing of the runtime's Unicode
  tables, which the program does not hold: it is the parameter \<open>ucd\<close> of every function
  that lowercases.
\<close>

definition ascii_lower :: "nat \<Rightarrow> nat" where
  "ascii_lower c = (if 65 \<le> c \<and> c \<le> 90 then c + 32 else c)"

definition lower :: "(pystr \<Rightarrow> pystr) \<Rightarrow> pystr \<Rightarrow> pystr" where
  "lower ucd s = (if list_all (\<lambda>c. c < 128) s then map ascii_lower s else ucd s)"

record match_line =
  line_no :: nat
  line_text :: pystr

record search_result =
  file_name :: pystr
  matches :: "match_line list"

text \<open>The loop over \<^verbatim>\<open>enumerate(content.split('\n'))\<close>; \<open>i\<close> is the index of the head.\<close>

fun match_lines :: "(pystr \<Rightarrow> pystr) \<Rightarrow> pystr \<Rightarrow> nat \<Rightarrow> pystr list \<Rightarrow> match_line list" where
  "match_lines ucd query_lower i [] = []"
| "match_lines ucd query_lower i (l # ls) =
     (if py_in query_lower (lower ucd l)
      then \<lparr>line_no = i + 1, line_text = take 200 l\<rparr> # match_lines ucd query_lower (i + 1) ls
      else match_lines ucd query_lower (i + 1) ls)"

fun search_loop ::
  "(pystr \<Rightarrow> pystr) \<Rightarrow> file_system \<Rightarrow> pystr \<Rightarrow> transcript list \<Rightarrow> error + search_result list" where
  "search_loop ucd d query_lower [] = Inr []"
| "search_loop ucd d query_lower (t # ts) =
     (case read_transcript d (path t) None of
        Inl e \<Rightarrow> Inl e
      | Inr content \<Rightarrow>
          (case search_loop ucd d query_lower ts of
             Inl e \<Rightarrow> Inl e
           | Inr results \<Rightarrow>
               if py_in query_lower (lower ucd content)
               then Inr (\<lparr>file_name = name t,
                               matches = take 10 (match_lines ucd query_lower 0 (split_nl content))\<rparr>
                         # results)
               else Inr results))"

definition search_transcripts ::
  "(pystr \<Rightarrow> pystr) \<Rightarrow> file_system \<Rightarrow> pystr \<Rightarrow> error + search_result list" where
  "search_transcripts ucd d query =
     (let query_lower = lower ucd query
      in search_loop ucd d query_lower (get_transcript_list d))"

section \<open>The combiner\<close>

fun combine_loop :: "file_system \<Rightarrow> transcript list \<Rightarrow> error + pystr list" where
  "combine_loop d [] = Inr []"
| "combine_loop d (t # ts) =
     (case read_transcript d (path t) None of
        Inl e \<Rightarrow> Inl e
      | Inr content \<Rightarrow>
          (case combine_loop d ts of
             Inl e \<Rightarrow> Inl e
           | Inr combined \<Rightarrow>
               Inr ((10 # replicate 80 61)
                    # (ascii ''=== FILE: '' @ name t @ ascii '' ==='')
                    # (replicate 80 61 @ [10])
                    # content # combined)))"

definition combine_all_transcripts :: "file_system \<Rightarrow> error + pystr" where
  "combine_all_transcripts d =
     (case combine_loop d (sort_key name (get_transcript_list d)) of
        Inl e \<Rightarrow> Inl e
      | Inr combined \<Rightarrow> Inr (join_nl combined))"

section \<open>The JSON decoder\<close>

text \<open>
  \<^verbatim>\<open>json.loads\<close> of the standard library, on a \<^verbatim>\<open>str\<close>. A value is what the
  decoder builds: \<^verbatim>\<open>None\<close>, a \<^verbatim>\<open>bool\<close>, an \<^verbatim>\<open>int\<close>, a \<^verbatim>\<open>float\<close>, a
  \<^verbatim>\<open>str\<close>, a \<^verbatim>\<open>list\<close> or a \<^verbatim>\<open>dict\<close>. A float is kept as its sign, its decimal
  digits \<open>m\<close> and its decimal exponent \<open>e\<close> (the number \<open>m * 10 ^ e\<close>), since the program
  only asks whether it is zero; the pairs of an object are kept in the order read, and a
  lookup takes the last pair of a key, as the \<^verbatim>\<open>dict\<close> does.

  Two limits of the runtime make the decoder raise an error that is not a
  \<^verbatim>\<open>JSONDecodeError\<close>. It enters a list or an object through a recursive call, which
  raises \<^verbatim>\<open>RecursionError\<close> when the stack is used up; how many nested lists and objects
  it enters depends on the interpreter. The program calls the decoder from a stack of a
  few frames and does not change the recursion limit, so 100 are entered by every
  interpreter: \<open>max_depth\<close>, the number that are entered, is 100 and what this interpreter
  has to spare. And an integer of more digits than
  \<^verbatim>\<open>sys.get_int_max_str_digits()\<close> allows (0 for any number, or else a bound of at least
  640) raises \<^verbatim>\<open>ValueError\<close>.
\<close>

record limits =
  spare_depth :: nat
  max_str_digits :: nat

definition max_depth :: "limits \<Rightarrow> nat" where
  "max_depth lim = 100 + spare_depth lim"

definition too_many_digits :: "limits \<Rightarrow> nat \<Rightarrow> bool" where
  "too_many_digits lim n = (0 < max_str_digits lim \<and> max_str_digits lim < n \<and> 640 < n)"

datatype json =
    JNull
  | JBool bool
  | JInt int
  | JFloat bool nat int
  | JNaN
  | JInfinity bool
  | JString pystr
  | JArray "json list"
  | JObject "(pystr \<times> json) list"

text \<open>
  The tokens of a text. An integer is kept with the number of its digits, which the limit
  is about; \<open>Scalar\<close> is any other value that is not a list or an object.
\<close>

datatype token =
    LBracket | RBracket | LBrace | RBrace | Comma | Colon
  | Scalar json
  | Integer int nat
  | Bad

definition hex4 :: "pystr \<Rightarrow> nat option" where
  "hex4 s =
     (case s of
        h1 # h2 # h3 # h4 # _ \<Rightarrow>
          if is_hex h1 \<and> is_hex h2 \<and> is_hex h3 \<and> is_hex h4 then Some (int16 h1 h2 h3 h4)
          else None
      | _ \<Rightarrow> None)"

definition low_escape :: "pystr \<Rightarrow> nat option" where
  "low_escape s =
     (case s of
        b # u # r \<Rightarrow>
          if b = 92 \<and> u = 117 then
            (case hex4 r of
               Some u2 \<Rightarrow> if 0xDC00 \<le> u2 \<and> u2 \<le> 0xDFFF then Some u2 else None
             | None \<Rightarrow> None)
          else None
      | _ \<Rightarrow> None)"

definition simple_escape :: "nat \<Rightarrow> nat option" where
  "simple_escape e =
     (if e = 34 \<or> e = 92 \<or> e = 47 then Some e
      else if e = 98 then Some 8
      else if e = 102 then Some 12
      else if e = 110 then Some 10
      else if e = 114 then Some 13
      else if e = 116 then Some 9
      else None)"

text \<open>
  One item of a string literal, at the head of the text: a character, or an escape. The
  result is what it stands for and how many characters it takes. A control character
  and a wrong escape are errors; a high surrogate escape followed by a low one is one
  code point.
\<close>

definition string_item :: "nat \<Rightarrow> pystr \<Rightarrow> (pystr \<times> nat) option" where
  "string_item c cs =
     (if c = 92 then
        (case cs of
           [] \<Rightarrow> None
         | e # r \<Rightarrow>
             if e = 117 then
               (case hex4 r of
                  None \<Rightarrow> None
                | Some u \<Rightarrow>
                    if 0xD800 \<le> u \<and> u \<le> 0xDBFF then
                      (case low_escape (drop 4 r) of
                         Some u2 \<Rightarrow>
                           Some ([0x10000 + (u - 0xD800) * 1024 + (u2 - 0xDC00)], 12)
                       | None \<Rightarrow> Some ([u], 6))
                    else Some ([u], 6))
             else (case simple_escape e of None \<Rightarrow> None | Some v \<Rightarrow> Some ([v], 2)))
      else if c < 32 then None
      else Some ([c], 1))"

text \<open>
  The text after an opening quote: the string it holds and the number of characters up
  to and with the closing quote, or \<open>None\<close> when the literal is wrong or not closed.
\<close>

fun scan_string :: "pystr \<Rightarrow> (pystr \<times> nat) option" where
  "scan_string [] = None"
| "scan_string (c # cs) =
     (if c = 34 then Some ([], 1)
      else (case string_item c cs of
              None \<Rightarrow> None
            | Some (out, k) \<Rightarrow>
                (case scan_string (drop (k - 1) cs) of
                   None \<Rightarrow> None
                 | Some (s, n) \<Rightarrow> Some (out @ s, k + n))))"

definition is_digit :: "nat \<Rightarrow> bool" where
  "is_digit c = (48 \<le> c \<and> c \<le> 57)"

definition digits_val :: "pystr \<Rightarrow> nat" where
  "digits_val ds = foldl (\<lambda>a c. a * 10 + (c - 48)) 0 ds"

text \<open>
  A number at the head of the text: an optional minus, the integer digits (a single 0, or
  digits that start with 1 to 9), a fraction when a point and a digit follow, an
  exponent when e or E, an optional sign and a digit follow. With a fraction or an
  exponent it is a float, otherwise an int.
\<close>

definition scan_number :: "pystr \<Rightarrow> (token \<times> nat) option" where
  "scan_number s =
     (let neg = (s \<noteq> [] \<and> hd s = 45);
          s1 = (if neg then tl s else s);
          ip = (case s1 of
                  [] \<Rightarrow> []
                | c # r \<Rightarrow> if c = 48 then [c]
                           else if 49 \<le> c \<and> c \<le> 57 then c # takeWhile is_digit r
                           else []);
          s2 = drop (length ip) s1;
          fp = (case s2 of
                  p # c # r \<Rightarrow> if p = 46 \<and> is_digit c then c # takeWhile is_digit r else []
                | _ \<Rightarrow> []);
          s3 = (if fp = [] then s2 else drop (1 + length fp) s2);
          esign = (case s3 of
                     e # g # r \<Rightarrow> (e = 101 \<or> e = 69) \<and> (g = 43 \<or> g = 45)
                   | _ \<Rightarrow> False);
          eneg = (esign \<and> hd (tl s3) = 45);
          ep = (case s3 of
                  e # r \<Rightarrow> if e = 101 \<or> e = 69
                            then takeWhile is_digit (if esign then tl r else r) else []
                | [] \<Rightarrow> []);
          elen = (if ep = [] then 0 else 1 + (if esign then 1 else 0) + length ep);
          n = (if neg then 1 else 0) + length ip + (if fp = [] then 0 else 1 + length fp) + elen
      in if ip = [] then None
         else if fp = [] \<and> ep = [] then
           Some (Integer (if neg then - int (digits_val ip) else int (digits_val ip))
                   (length ip), n)
         else
           Some (Scalar (JFloat neg (digits_val (ip @ fp))
                   ((if eneg then - int (digits_val ep) else int (digits_val ep))
                    - int (length fp))), n))"

text \<open>A value that is not a string, a list or an object, at the head of the text.\<close>

definition scan_literal :: "pystr \<Rightarrow> (token \<times> nat) option" where
  "scan_literal s =
     (if prefix (ascii ''null'') s then Some (Scalar JNull, 4)
      else if prefix (ascii ''true'') s then Some (Scalar (JBool True), 4)
      else if prefix (ascii ''false'') s then Some (Scalar (JBool False), 5)
      else if prefix (ascii ''NaN'') s then Some (Scalar JNaN, 3)
      else if prefix (ascii ''Infinity'') s then Some (Scalar (JInfinity False), 8)
      else if prefix (ascii ''-Infinity'') s then Some (Scalar (JInfinity True), 9)
      else scan_number s)"

definition is_json_space :: "nat \<Rightarrow> bool" where
  "is_json_space c = (c = 32 \<or> c = 9 \<or> c = 10 \<or> c = 13)"

fun lex :: "pystr \<Rightarrow> token list" where
  "lex [] = []"
| "lex (c # cs) =
     (if is_json_space c then lex cs
      else if c = 91 then LBracket # lex cs
      else if c = 93 then RBracket # lex cs
      else if c = 123 then LBrace # lex cs
      else if c = 125 then RBrace # lex cs
      else if c = 44 then Comma # lex cs
      else if c = 58 then Colon # lex cs
      else if c = 34 then
        (case scan_string cs of
           None \<Rightarrow> [Bad]
         | Some (s, n) \<Rightarrow> Scalar (JString s) # lex (drop n cs))
      else
        (case scan_literal (c # cs) of
           None \<Rightarrow> [Bad]
         | Some (t, n) \<Rightarrow> t # lex (drop (n - 1) cs)))"

text \<open>
  The decoder's grammar over the tokens, as a stack machine. A frame is a list or an
  object under construction (its members so far, last first); an object frame that has
  read a key holds it. The mode says what may come next.
\<close>

datatype frame =
    InArray "json list"
  | InObject "(pystr \<times> json) list"
  | InMember "(pystr \<times> json) list" pystr

datatype mode =
    NeedValue
  | ValueOrClose
  | KeyOrClose
  | NeedKey
  | NeedColon
  | AfterValue
  | Finished json

text \<open>A value is complete: it is the result, or a member of the frame on top.\<close>

fun complete :: "json \<Rightarrow> frame list \<Rightarrow> error + frame list \<times> mode" where
  "complete v [] = Inr ([], Finished v)"
| "complete v (InArray vs # st) = Inr (InArray (v # vs) # st, AfterValue)"
| "complete v (InMember kvs k # st) = Inr (InObject ((k, v) # kvs) # st, AfterValue)"
| "complete v (InObject kvs # st) = Inl JSONDecodeError"

text \<open>
  A value is expected. An integer is converted here, and a list or an object is entered
  here: these are the two places where a limit of the runtime is met.
\<close>

fun begin_value :: "limits \<Rightarrow> token \<Rightarrow> frame list \<Rightarrow> error + frame list \<times> mode" where
  "begin_value lim (Scalar v) st = complete v st"
| "begin_value lim (Integer i n) st =
     (if too_many_digits lim n then Inl ValueError else complete (JInt i) st)"
| "begin_value lim LBracket st =
     (if max_depth lim \<le> length st then Inl RecursionError
      else Inr (InArray [] # st, ValueOrClose))"
| "begin_value lim LBrace st =
     (if max_depth lim \<le> length st then Inl RecursionError
      else Inr (InObject [] # st, KeyOrClose))"
| "begin_value lim _ st = Inl JSONDecodeError"

fun begin_key :: "token \<Rightarrow> frame list \<Rightarrow> error + frame list \<times> mode" where
  "begin_key (Scalar (JString k)) (InObject kvs # st) = Inr (InMember kvs k # st, NeedColon)"
| "begin_key _ st = Inl JSONDecodeError"

fun step :: "limits \<Rightarrow> token \<Rightarrow> frame list \<times> mode \<Rightarrow> error + frame list \<times> mode" where
  "step lim t (st, NeedValue) = begin_value lim t st"
| "step lim t (st, ValueOrClose) =
     (case (t, st) of
        (RBracket, InArray vs # st') \<Rightarrow> complete (JArray (rev vs)) st'
      | _ \<Rightarrow> begin_value lim t st)"
| "step lim t (st, KeyOrClose) =
     (case (t, st) of
        (RBrace, InObject kvs # st') \<Rightarrow> complete (JObject (rev kvs)) st'
      | _ \<Rightarrow> begin_key t st)"
| "step lim t (st, NeedKey) = begin_key t st"
| "step lim t (st, NeedColon) = (if t = Colon then Inr (st, NeedValue) else Inl JSONDecodeError)"
| "step lim t (st, AfterValue) =
     (case (t, st) of
        (Comma, InArray vs # st') \<Rightarrow> Inr (st, NeedValue)
      | (RBracket, InArray vs # st') \<Rightarrow> complete (JArray (rev vs)) st'
      | (Comma, InObject kvs # st') \<Rightarrow> Inr (st, NeedKey)
      | (RBrace, InObject kvs # st') \<Rightarrow> complete (JObject (rev kvs)) st'
      | _ \<Rightarrow> Inl JSONDecodeError)"
| "step lim t (st, Finished v) = Inl JSONDecodeError"

fun run :: "limits \<Rightarrow> token list \<Rightarrow> frame list \<times> mode \<Rightarrow> error + frame list \<times> mode" where
  "run lim [] s = Inr s"
| "run lim (t # ts) s = (case step lim t s of Inl e \<Rightarrow> Inl e | Inr s' \<Rightarrow> run lim ts s')"

definition json_loads :: "limits \<Rightarrow> pystr \<Rightarrow> error + json" where
  "json_loads lim s =
     (case run lim (lex s) ([], NeedValue) of
        Inl e \<Rightarrow> Inl e
      | Inr ([], Finished v) \<Rightarrow> Inr v
      | Inr _ \<Rightarrow> Inl JSONDecodeError)"

section \<open>The message extractor\<close>

text \<open>
  \<^verbatim>\<open>re.split(r'\n(Human|Assistant):\nContent:\n', content)\<close>: the text before the
  first marker, then for every marker the role it names and the text up to the next
  marker. The scan resumes after a marker, so the line break that ends one cannot begin
  the next.
\<close>

definition human_marker :: pystr where
  "human_marker = 10 # ascii ''Human:'' @ 10 # ascii ''Content:'' @ [10]"

definition assistant_marker :: pystr where
  "assistant_marker = 10 # ascii ''Assistant:'' @ 10 # ascii ''Content:'' @ [10]"

fun re_split :: "pystr \<Rightarrow> pystr list" where
  "re_split [] = [[]]"
| "re_split (c # cs) =
     (if prefix human_marker (c # cs)
      then [] # ascii ''Human'' # re_split (drop (length human_marker - 1) cs)
      else if prefix assistant_marker (c # cs)
      then [] # ascii ''Assistant'' # re_split (drop (length assistant_marker - 1) cs)
      else (case re_split cs of [] \<Rightarrow> [[c]] | p # ps \<Rightarrow> (c # p) # ps))"

text \<open>
  \<^verbatim>\<open>re.search(r'\[[\s\S]*?\n\]', json_content)\<close>: from the first opening bracket to
  the first line break after it that a closing bracket follows, both included.
\<close>

fun upto_close :: "pystr \<Rightarrow> pystr option" where
  "upto_close (c # d # r) =
     (if c = 10 \<and> d = 93 then Some [c, d]
      else (case upto_close (d # r) of None \<Rightarrow> None | Some m \<Rightarrow> Some (c # m)))"
| "upto_close _ = None"

definition re_search_array :: "pystr \<Rightarrow> pystr option" where
  "re_search_array s =
     (case dropWhile (\<lambda>c. c \<noteq> 91) s of
        [] \<Rightarrow> None
      | b # r \<Rightarrow> (case upto_close r of None \<Rightarrow> None | Some m \<Rightarrow> Some (b # m)))"

text \<open>
  The truth value of a decoded value. A float is zero when it rounds to zero: when its
  digits are zero, or its magnitude is at most \<open>2\<close> to the \<open>-1075\<close>, half the least
  positive double.
\<close>

fun truthy :: "json \<Rightarrow> bool" where
  "truthy JNull = False"
| "truthy (JBool b) = b"
| "truthy (JInt i) = (i \<noteq> 0)"
| "truthy (JFloat neg m e) = (if 0 \<le> e then m \<noteq> 0 else 10 ^ nat (- e) < m * 2 ^ 1075)"
| "truthy JNaN = True"
| "truthy (JInfinity neg) = True"
| "truthy (JString s) = (s \<noteq> [])"
| "truthy (JArray vs) = (vs \<noteq> [])"
| "truthy (JObject kvs) = (kvs \<noteq> [])"

definition dict_get :: "(pystr \<times> json) list \<Rightarrow> pystr \<Rightarrow> json option" where
  "dict_get kvs k = map_of (rev kvs) k"

text \<open>\<^verbatim>\<open>str.strip()\<close> removes the white space of Unicode at both ends.\<close>

definition is_space :: "nat \<Rightarrow> bool" where
  "is_space c =
     ((9 \<le> c \<and> c \<le> 13) \<or> (28 \<le> c \<and> c \<le> 32) \<or> c = 0x85 \<or> c = 0xA0 \<or> c = 0x1680
      \<or> (0x2000 \<le> c \<and> c \<le> 0x200A) \<or> c = 0x2028 \<or> c = 0x2029 \<or> c = 0x202F
      \<or> c = 0x205F \<or> c = 0x3000)"

definition strip :: "pystr \<Rightarrow> pystr" where
  "strip s = rev (dropWhile is_space (rev (dropWhile is_space s)))"

record message =
  msg_role :: pystr
  msg_text :: pystr

text \<open>
  The loop over the items of one decoded list. \<^verbatim>\<open>item.get\<close> exists on a
  \<^verbatim>\<open>dict\<close> only, and \<^verbatim>\<open>.strip()\<close> on a \<^verbatim>\<open>str\<close> only: on any other value the
  attribute lookup raises \<^verbatim>\<open>AttributeError\<close>.
\<close>

fun item_loop ::
  "(pystr \<Rightarrow> pystr) \<Rightarrow> pystr \<Rightarrow> json list \<Rightarrow> message list \<Rightarrow> error + message list" where
  "item_loop ucd role [] messages = Inr messages"
| "item_loop ucd role (item # items) messages =
     (case item of
        JObject kvs \<Rightarrow>
          if dict_get kvs (ascii ''type'') = Some (JString (ascii ''text''))
             \<and> (case dict_get kvs (ascii ''text'') of None \<Rightarrow> False | Some v \<Rightarrow> truthy v)
          then
            (case dict_get kvs (ascii ''text'') of
               Some (JString s) \<Rightarrow>
                 (let text = strip s
                  in if text \<noteq> [] \<and> text \<noteq> ascii '' ''
                     then item_loop ucd role items
                            (messages @ [\<lparr>msg_role = lower ucd role, msg_text = text\<rparr>])
                     else item_loop ucd role items messages)
             | _ \<Rightarrow> Inl AttributeError)
          else item_loop ucd role items messages
      | _ \<Rightarrow> Inl AttributeError)"

text \<open>
  \<^verbatim>\<open>for item in data\<close>. The fragment begins with a bracket, so \<open>data\<close> is a list when
  it decodes; the other cases are what iterating such a value does.
\<close>

definition for_items ::
  "(pystr \<Rightarrow> pystr) \<Rightarrow> pystr \<Rightarrow> json \<Rightarrow> message list \<Rightarrow> error + message list" where
  "for_items ucd role data messages =
     (case data of
        JArray items \<Rightarrow> item_loop ucd role items messages
      | JObject kvs \<Rightarrow> if kvs = [] then Inr messages else Inl AttributeError
      | JString s \<Rightarrow> if s = [] then Inr messages else Inl AttributeError
      | _ \<Rightarrow> Inl TypeError)"

text \<open>The body of the \<^verbatim>\<open>try\<close> block, for one segment.\<close>

definition try_body ::
  "(pystr \<Rightarrow> pystr) \<Rightarrow> limits \<Rightarrow> pystr \<Rightarrow> pystr \<Rightarrow> message list
   \<Rightarrow> error + message list" where
  "try_body ucd lim role json_content messages =
     (case re_search_array json_content of
        None \<Rightarrow> Inr messages
      | Some m \<Rightarrow>
          (case json_loads lim m of
             Inl e \<Rightarrow> Inl e
           | Inr data \<Rightarrow> for_items ucd role data messages))"

text \<open>
  The loop over \<^verbatim>\<open>range(1, len(parts), 2)\<close>, on the parts from index 1 on; a role
  with no text after it has \<^verbatim>\<open>json_content = None\<close>. Only
  \<^verbatim>\<open>json.JSONDecodeError\<close> is caught.
\<close>

fun extract_loop ::
  "(pystr \<Rightarrow> pystr) \<Rightarrow> limits \<Rightarrow> pystr list \<Rightarrow> message list \<Rightarrow> error + message list" where
  "extract_loop ucd lim (role # json_content # rest) messages =
     (if role \<noteq> [] \<and> json_content \<noteq> [] then
        (case try_body ucd lim role json_content messages of
           Inl e \<Rightarrow> if e = JSONDecodeError then extract_loop ucd lim rest messages else Inl e
         | Inr messages' \<Rightarrow> extract_loop ucd lim rest messages')
      else extract_loop ucd lim rest messages)"
| "extract_loop ucd lim [role] messages = Inr messages"
| "extract_loop ucd lim [] messages = Inr messages"

definition extract_messages ::
  "(pystr \<Rightarrow> pystr) \<Rightarrow> limits \<Rightarrow> pystr \<Rightarrow> error + message list" where
  "extract_messages ucd lim content = extract_loop ucd lim (tl (re_split content)) []"

text \<open>
  For the statement of the skipping of segments: a segment is malformed when it holds a
  bracketed fragment that the decoder rejects with \<^verbatim>\<open>JSONDecodeError\<close>, and
  \<open>without_malformed\<close> removes every role with such a segment from the parts.
\<close>

definition malformed :: "limits \<Rightarrow> pystr \<Rightarrow> bool" where
  "malformed lim json_content =
     (case re_search_array json_content of
        None \<Rightarrow> False
      | Some m \<Rightarrow> json_loads lim m = Inl JSONDecodeError)"

fun without_malformed :: "limits \<Rightarrow> pystr list \<Rightarrow> pystr list" where
  "without_malformed lim (role # json_content # rest) =
     (if malformed lim json_content then without_malformed lim rest
      else role # json_content # without_malformed lim rest)"
| "without_malformed lim parts = parts"

section \<open>The formatter\<close>

fun format_loop :: "message list \<Rightarrow> int option \<Rightarrow> pystr list" where
  "format_loop [] max_length = []"
| "format_loop (msg # msgs) max_length =
     (let role = (if msg_role msg = ascii ''human'' then ascii ''HUMAN'' else ascii ''CLAUDE'');
          text = msg_text msg;
          text' = (case max_length of
                     None \<Rightarrow> text
                   | Some n \<Rightarrow> if n \<noteq> 0 \<and> n < int (length text)
                               then slice_to text n @ ascii ''...'' else text)
      in (10 # ascii ''['' @ role @ ascii '']:'' @ 10 # text' @ [10])
         # format_loop msgs max_length)"

definition format_messages :: "message list \<Rightarrow> int option \<Rightarrow> pystr" where
  "format_messages messages max_length = join_nl (format_loop messages max_length)"

section \<open>The command line\<close>

text \<open>
  The parsed arguments, and what a run leaves: the texts printed on standard output and
  on the error stream, one per call of \<^verbatim>\<open>print\<close>, the exit status, and the file
  written. A run that ends in an uncaught exception is \<open>Inl\<close> of it.
\<close>

record args =
  arg_list :: bool
  arg_all :: bool
  arg_file :: "pystr option"
  arg_search :: "pystr option"
  arg_tail :: "int option"
  arg_messages :: bool
  arg_output :: "pystr option"
  arg_truncate :: "int option"

record outcome =
  stdout :: "pystr list"
  stderr :: "pystr list"
  exit_status :: nat
  written :: "(pystr \<times> pystr) option"

fun str_nat :: "nat \<Rightarrow> pystr" where
  "str_nat n = (if n < 10 then [48 + n] else str_nat (n div 10) @ [48 + n mod 10])"

text \<open>
  \<^verbatim>\<open>f"{size/1024:.1f}"\<close>: the quotient, exact for a size below \<open>2\<close> to the \<open>53\<close>,
  rounded to one decimal, a tie to the even digit.
\<close>

definition kb_text :: "nat \<Rightarrow> pystr" where
  "kb_text sz =
     (let q = sz * 10 div 1024;
          r = sz * 10 mod 1024;
          t = (if 512 < r \<or> (r = 512 \<and> odd q) then q + 1 else q)
      in str_nat (t div 10) @ 46 # str_nat (t mod 10))"

text \<open>
  An optional text argument: its value (\<^verbatim>\<open>None\<close> and the empty text both count as
  not given, as \<^verbatim>\<open>if args.file:\<close> reads them).
\<close>

definition arg_text :: "pystr option \<Rightarrow> pystr" where
  "arg_text a = (case a of None \<Rightarrow> [] | Some s \<Rightarrow> s)"

definition given :: "pystr option \<Rightarrow> bool" where
  "given a = (arg_text a \<noteq> [])"

definition print_results :: "search_result list \<Rightarrow> pystr list" where
  "print_results results =
     concat (map (\<lambda>r. (ascii ''=== '' @ file_name r @ ascii '' ==='')
                      # map (\<lambda>m. ascii ''  L'' @ str_nat (line_no m) @ ascii '': ''
                                  @ take 80 (line_text m) @ ascii ''...'') (matches r))
                 results)"

text \<open>The end of \<open>main\<close>, from the selected text \<open>result\<close> on.\<close>

definition deliver ::
  "(pystr \<Rightarrow> pystr) \<Rightarrow> limits \<Rightarrow> args \<Rightarrow> pystr list \<Rightarrow> pystr \<Rightarrow> error + outcome" where
  "deliver ucd lim a err result =
     (case (if arg_messages a \<and> result \<noteq> []
            then (case extract_messages ucd lim result of
                    Inl e \<Rightarrow> Inl e
                  | Inr messages \<Rightarrow> Inr (format_messages messages (arg_truncate a)))
            else Inr result) of
        Inl e \<Rightarrow> Inl e
      | Inr result' \<Rightarrow>
          if given (arg_output a)
          then Inr \<lparr>stdout = [ascii ''Saved: '' @ arg_text (arg_output a)], stderr = err,
                    exit_status = 0, written = Some (arg_text (arg_output a), result')\<rparr>
          else if result' \<noteq> []
          then Inr \<lparr>stdout = [result'], stderr = err, exit_status = 0, written = None\<rparr>
          else Inr \<lparr>stdout = [], stderr = err, exit_status = 0, written = None\<rparr>)"

definition main ::
  "(pystr \<Rightarrow> pystr) \<Rightarrow> limits \<Rightarrow> file_system \<Rightarrow> args \<Rightarrow> error + outcome" where
  "main ucd lim d a =
     (if arg_list a then
        (let transcripts = get_transcript_list d
         in Inr \<lparr>stdout = (ascii ''Found '' @ str_nat (length transcripts)
                            @ ascii '' transcripts:'' @ [10])
                           # map (\<lambda>t. ascii ''  '' @ name t @ ascii '' (''
                                       @ kb_text (size_bytes t) @ ascii '' KB)'') transcripts,
                  stderr = [], exit_status = 0, written = None\<rparr>)
      else if given (arg_search a) then
        (case search_transcripts ucd d (arg_text (arg_search a)) of
           Inl e \<Rightarrow> Inl e
         | Inr results \<Rightarrow>
             if results = []
             then Inr \<lparr>stdout = [ascii ''No matches for: '' @ arg_text (arg_search a)],
                       stderr = [], exit_status = 0, written = None\<rparr>
             else Inr \<lparr>stdout = print_results results,
                       stderr = [], exit_status = 0, written = None\<rparr>)
      else if arg_all a then
        (case combine_all_transcripts d of
           Inl e \<Rightarrow> Inl e
         | Inr result \<Rightarrow> deliver ucd lim a [] result)
      else if given (arg_file a) then
        (let p = truediv TRANSCRIPTS_DIR (arg_text (arg_file a))
         in if resolve d p = None
            then Inr \<lparr>stdout = [ascii ''Error: '' @ arg_text (arg_file a) @ ascii '' not found''],
                      stderr = [], exit_status = 1, written = None\<rparr>
            else (case read_transcript d p (arg_tail a) of
                    Inl e \<Rightarrow> Inl e
                  | Inr result \<Rightarrow> deliver ucd lim a [] result))
      else
        (case get_current_transcript d of
           None \<Rightarrow> Inr \<lparr>stdout = [ascii ''No transcripts found''], stderr = [],
                        exit_status = 1, written = None\<rparr>
         | Some current \<Rightarrow>
             (case read_transcript d current (arg_tail a) of
                Inl e \<Rightarrow> Inl e
              | Inr result \<Rightarrow>
                  deliver ucd lim a [ascii ''Current: '' @ path_name current @ [10]] result)))"

text \<open>Default mode: no flag but, possibly, \<^verbatim>\<open>--tail\<close>.\<close>

definition no_flags :: "args \<Rightarrow> bool" where
  "no_flags a =
     (\<not> arg_list a \<and> \<not> given (arg_search a) \<and> \<not> arg_all a \<and> \<not> given (arg_file a)
      \<and> \<not> arg_messages a \<and> \<not> given (arg_output a))"

section \<open>Lines\<close>

lemma split_nl_not_Nil: "split_nl s \<noteq> []"
  by (induction s) (auto split: list.splits)

lemma join_nl_Cons: "ls \<noteq> [] \<Longrightarrow> join_nl (l # ls) = l @ 10 # join_nl ls"
  by (cases ls) simp_all

lemma join_nl_split_nl: "join_nl (split_nl s) = s"
proof (induction s)
  case Nil
  show ?case by simp
next
  case (Cons c cs)
  show ?case
  proof (cases "c = 10")
    case True
    with Cons show ?thesis by (simp add: join_nl_Cons split_nl_not_Nil)
  next
    case False
    obtain l ls where eq: "split_nl cs = l # ls"
      using split_nl_not_Nil [of cs] by (cases "split_nl cs") auto
    with Cons False show ?thesis by (cases ls) auto
  qed
qed


lemma split_nl_single: "10 \<notin> set s \<Longrightarrow> split_nl s = [s]"
  by (induction s) auto

lemma split_nl_single_iff: "split_nl s = [l] \<Longrightarrow> 10 \<notin> set s"
proof (induction s arbitrary: l)
  case Nil
  then show ?case by simp
next
  case (Cons c cs)
  obtain l0 ls where eq: "split_nl cs = l0 # ls"
    using split_nl_not_Nil [of cs] by (cases "split_nl cs") auto
  from Cons.prems eq have c: "c \<noteq> 10" by (auto split: if_splits)
  with Cons.prems eq have "ls = []" by simp
  with eq Cons.IH c show ?case by simp
qed

lemma hd_split_nl_append:
  "10 \<notin> set q \<Longrightarrow> hd (split_nl (q @ ss)) = q @ hd (split_nl ss)"
proof (induction q)
  case Nil
  then show ?case by simp
next
  case (Cons c q)
  obtain l0 ls where "split_nl (q @ ss) = l0 # ls"
    using split_nl_not_Nil [of "q @ ss"] by (cases "split_nl (q @ ss)") auto
  with Cons show ?case by simp
qed



section \<open>The UTF-8 round trip\<close>

text \<open>
  Quotients and remainders of a code point by 64, 4096 and 262144.
\<close>

lemma d4096: "(c::nat) div 4096 = c div 64 div 64"
  by (simp add: div_mult2_eq [symmetric])

lemma d262144: "(c::nat) div 262144 = c div 4096 div 64"
  by (simp add: div_mult2_eq [symmetric])

lemma lin3: "(c::nat) = m * 64 + r \<Longrightarrow> m = a * 64 + b \<Longrightarrow> a * 4096 + b * 64 + r = c"
  by linarith

lemma split3: "(c::nat) div 4096 * 4096 + c div 64 mod 64 * 64 + c mod 64 = c"
  unfolding d4096 by (rule lin3 [where m = "c div 64"]) simp_all

lemma lin4:
  "(c::nat) = n * 4096 + e \<Longrightarrow> n = a * 64 + b \<Longrightarrow> a * 262144 + b * 4096 + e = c"
  by linarith

lemma split4:
  "(c::nat) div 262144 * 262144 + c div 4096 mod 64 * 4096 + c div 64 mod 64 * 64 + c mod 64 = c"
proof -
  have e: "c = c div 4096 * 4096 + (c div 64 mod 64 * 64 + c mod 64)"
    using split3 [of c] by linarith
  have "c div 4096 div 64 * 262144 + c div 4096 mod 64 * 4096 + (c div 64 mod 64 * 64 + c mod 64) = c"
    by (rule lin4 [OF e]) simp
  then show ?thesis by (simp add: d262144 add.assoc)
qed

lemma q2: "0x80 \<le> (c::nat) \<Longrightarrow> c < 0x800 \<Longrightarrow> 2 \<le> c div 64 \<and> c div 64 < 32"
  using div_le_mono [of 128 c 64] by (simp add: less_mult_imp_div_less)

lemma q3_lt: "(c::nat) < 0x10000 \<Longrightarrow> c div 4096 < 16"
  by (simp add: less_mult_imp_div_less)

lemma q3_zero: "0x800 \<le> (c::nat) \<Longrightarrow> c div 4096 = 0 \<Longrightarrow> 32 \<le> c div 64 mod 64"
proof -
  assume a: "0x800 \<le> c" and z: "c div 4096 = 0"
  from z have "c div 64 div 64 = 0" by (simp add: d4096)
  then have "c div 64 mod 64 = c div 64" by (metis div_mult_mod_eq mult_zero_left add_0)
  moreover from a have "2048 div 64 \<le> c div 64" by (intro div_le_mono) simp
  ultimately show ?thesis by simp
qed

lemma q3_sur:
  assumes "0xD800 \<le> (c::nat)" "c \<le> 0xDFFF"
  shows "c div 4096 = 13" and "32 \<le> c div 64 mod 64"
proof -
  have lo: "864 \<le> c div 64" using assms(1) div_le_mono [of 55296 c 64] by simp
  have hi: "c div 64 \<le> 895" using assms(2) div_le_mono [of c 57343 64] by simp
  from lo hi show "c div 4096 = 13" unfolding d4096 by (intro div_nat_eqI) simp_all
  then have "c div 64 div 64 = 13" by (simp add: d4096)
  then have "c div 64 = 13 * 64 + c div 64 mod 64" by (metis div_mult_mod_eq)
  with lo show "32 \<le> c div 64 mod 64" by linarith
qed

lemma q3_13: "(c::nat) < 0xD800 \<Longrightarrow> c div 4096 = 13 \<Longrightarrow> c div 64 mod 64 < 32"
proof -
  assume a: "c < 0xD800" and q: "c div 4096 = 13"
  have hi: "c div 64 < 864" using a by (simp add: less_mult_imp_div_less)
  from q have "c div 64 div 64 = 13" by (simp add: d4096)
  then have "c div 64 = 13 * 64 + c div 64 mod 64" by (metis div_mult_mod_eq)
  with hi show ?thesis by linarith
qed

lemma q3_13_hi: "0xDFFF < (c::nat) \<Longrightarrow> c div 4096 \<noteq> 13"
proof
  assume a: "0xDFFF < c" and q: "c div 4096 = 13"
  have "c div 4096 * 4096 + c mod 4096 = c" by simp
  moreover have "c mod 4096 < 4096" by simp
  ultimately have "c < 13 * 4096 + 4096" using q by linarith
  with a show False by simp
qed

lemma q4_lt: "(c::nat) < 0x110000 \<Longrightarrow> c div 262144 < 5"
  by (simp add: less_mult_imp_div_less)

lemma q4_zero: "0x10000 \<le> (c::nat) \<Longrightarrow> c div 262144 = 0 \<Longrightarrow> 16 \<le> c div 4096 mod 64"
proof -
  assume a: "0x10000 \<le> c" and z: "c div 262144 = 0"
  from z have "c div 4096 div 64 = 0" by (simp add: d262144)
  then have "c div 4096 mod 64 = c div 4096" by (metis div_mult_mod_eq mult_zero_left add_0)
  moreover from a have "65536 div 4096 \<le> c div 4096" by (intro div_le_mono) simp
  ultimately show ?thesis by simp
qed

lemma q4_four_lt: "(c::nat) < 0x110000 \<Longrightarrow> c div 262144 = 4 \<Longrightarrow> c div 4096 mod 64 < 16"
proof -
  assume a: "c < 0x110000" and q: "c div 262144 = 4"
  have hi: "c div 4096 < 272" using a by (simp add: less_mult_imp_div_less)
  from q have "c div 4096 div 64 = 4" by (simp add: d262144)
  then have "c div 4096 = 4 * 64 + c div 4096 mod 64" by (metis div_mult_mod_eq)
  with hi show ?thesis by linarith
qed

lemma q4_ge: "0x110000 \<le> (c::nat) \<Longrightarrow> 4 \<le> c div 262144"
  using div_le_mono [of 1114112 c 262144] by simp

lemma q4_four_ge: "0x110000 \<le> (c::nat) \<Longrightarrow> c div 262144 = 4 \<Longrightarrow> 16 \<le> c div 4096 mod 64"
proof -
  assume a: "0x110000 \<le> c" and q: "c div 262144 = 4"
  have lo: "272 \<le> c div 4096" using a div_le_mono [of 1114112 c 4096] by simp
  from q have "c div 4096 div 64 = 4" by (simp add: d262144)
  then have "c div 4096 = 4 * 64 + c div 4096 mod 64" by (metis div_mult_mod_eq)
  with lo show ?thesis by linarith
qed

text \<open>
  The decoder on one sequence, well formed or not.
\<close>

lemma dec_invalid_start:
  "0x80 \<le> b \<Longrightarrow> b < 0xC2 \<or> 0xF5 \<le> b \<Longrightarrow>
   utf8_decode_replace (b # bs) = 0xFFFD # utf8_decode_replace bs"
  by auto

lemma dec2:
  "2 \<le> q \<Longrightarrow> q < 32 \<Longrightarrow> r < 64 \<Longrightarrow>
   utf8_decode_replace ((0xC0 + q) # (0x80 + r) # bs) = (q * 64 + r) # utf8_decode_replace bs"
  by (simp add: bad_second_def is_cont_def)

lemma dec3:
  "q < 16 \<Longrightarrow> s < 64 \<Longrightarrow> r < 64 \<Longrightarrow> (q = 0 \<longrightarrow> 32 \<le> s) \<Longrightarrow> (q = 13 \<longrightarrow> s < 32) \<Longrightarrow>
   utf8_decode_replace ((0xE0 + q) # (0x80 + s) # (0x80 + r) # bs)
     = (q * 4096 + s * 64 + r) # utf8_decode_replace bs"
  by (auto simp: bad_second_def is_cont_def)

lemma dec3_surrogate:
  "32 \<le> s \<Longrightarrow> s < 64 \<Longrightarrow> r < 64 \<Longrightarrow>
   utf8_decode_replace ((0xE0 + 13) # (0x80 + s) # (0x80 + r) # bs)
     = 0xFFFD # 0xFFFD # 0xFFFD # utf8_decode_replace bs"
  by (simp add: bad_second_def is_cont_def)

lemma dec4:
  "q < 5 \<Longrightarrow> t < 64 \<Longrightarrow> s < 64 \<Longrightarrow> r < 64 \<Longrightarrow> (q = 0 \<longrightarrow> 16 \<le> t) \<Longrightarrow> (q = 4 \<longrightarrow> t < 16) \<Longrightarrow>
   utf8_decode_replace ((0xF0 + q) # (0x80 + t) # (0x80 + s) # (0x80 + r) # bs)
     = (q * 262144 + t * 4096 + s * 64 + r) # utf8_decode_replace bs"
  by (auto simp: bad_second_def is_cont_def)

lemma dec4_out:
  "4 \<le> q \<Longrightarrow> t < 64 \<Longrightarrow> s < 64 \<Longrightarrow> r < 64 \<Longrightarrow> (q = 4 \<longrightarrow> 16 \<le> t) \<Longrightarrow>
   utf8_decode_replace ((0xF0 + q) # (0x80 + t) # (0x80 + s) # (0x80 + r) # bs)
     = 0xFFFD # 0xFFFD # 0xFFFD # 0xFFFD # utf8_decode_replace bs"
  by (simp add: bad_second_def is_cont_def)

text \<open>
  Encoding a text and decoding it again works code point by code point.
\<close>

lemma roundtrip_encode1:
  "utf8_decode_replace (utf8_encode1 c @ bs) = roundtrip1 c @ utf8_decode_replace bs"
proof -
  consider (a) "c < 0x80" | (b) "0x80 \<le> c" "c < 0x800" | (c) "0x800 \<le> c" "c < 0x10000"
    | (d) "0x10000 \<le> c"
    by linarith
  then show ?thesis
  proof cases
    case a
    then show ?thesis by (simp add: utf8_encode1_def roundtrip1_def)
  next
    case b
    have "utf8_decode_replace ((0xC0 + c div 64) # (0x80 + c mod 64) # bs)
            = (c div 64 * 64 + c mod 64) # utf8_decode_replace bs"
      using q2 [OF b] by (intro dec2) auto
    with b show ?thesis by (simp add: utf8_encode1_def roundtrip1_def)
  next
    case c
    show ?thesis
    proof (cases "0xD800 \<le> c \<and> c \<le> 0xDFFF")
      case True
      then have q: "c div 4096 = 13" and s: "32 \<le> c div 64 mod 64"
        using q3_sur [of c] by simp_all
      have "utf8_decode_replace ((0xE0 + 13) # (0x80 + c div 64 mod 64) # (0x80 + c mod 64) # bs)
              = 0xFFFD # 0xFFFD # 0xFFFD # utf8_decode_replace bs"
        using s by (intro dec3_surrogate) auto
      with c True q show ?thesis by (simp add: utf8_encode1_def roundtrip1_def)
    next
      case False
      have q0: "c div 4096 = 0 \<longrightarrow> 32 \<le> c div 64 mod 64" using c q3_zero [of c] by simp
      have q13: "c div 4096 = 13 \<longrightarrow> c div 64 mod 64 < 32"
        using False q3_13 [of c] q3_13_hi [of c] by (cases "c < 0xD800") auto
      have q: "c div 4096 < 16" using c q3_lt [of c] by simp
      have "utf8_decode_replace
              ((0xE0 + c div 4096) # (0x80 + c div 64 mod 64) # (0x80 + c mod 64) # bs)
              = (c div 4096 * 4096 + c div 64 mod 64 * 64 + c mod 64) # utf8_decode_replace bs"
        using q q0 q13 by (intro dec3) auto
      with c False show ?thesis by (simp add: utf8_encode1_def roundtrip1_def split3)
    qed
  next
    case d
    show ?thesis
    proof (cases "c < 0x110000")
      case True
      have q0: "c div 262144 = 0 \<longrightarrow> 16 \<le> c div 4096 mod 64" using d q4_zero [of c] by simp
      have q4: "c div 262144 = 4 \<longrightarrow> c div 4096 mod 64 < 16" using True q4_four_lt [of c] by simp
      have q: "c div 262144 < 5" using True q4_lt [of c] by simp
      have "utf8_decode_replace
              ((0xF0 + c div 262144) # (0x80 + c div 4096 mod 64) # (0x80 + c div 64 mod 64)
               # (0x80 + c mod 64) # bs)
              = (c div 262144 * 262144 + c div 4096 mod 64 * 4096 + c div 64 mod 64 * 64 + c mod 64)
                # utf8_decode_replace bs"
        using q q0 q4 by (intro dec4) auto
      with d True show ?thesis by (simp add: utf8_encode1_def roundtrip1_def split4)
    next
      case False
      have q4: "c div 262144 = 4 \<longrightarrow> 16 \<le> c div 4096 mod 64"
        using False q4_four_ge [of c] by simp
      have q: "4 \<le> c div 262144" using False q4_ge [of c] by simp
      have "utf8_decode_replace
              ((0xF0 + c div 262144) # (0x80 + c div 4096 mod 64) # (0x80 + c div 64 mod 64)
               # (0x80 + c mod 64) # bs)
              = 0xFFFD # 0xFFFD # 0xFFFD # 0xFFFD # utf8_decode_replace bs"
        using q q4 by (intro dec4_out) auto
      with d False show ?thesis by (simp add: utf8_encode1_def roundtrip1_def)
    qed
  qed
qed

lemma roundtrip_encode:
  "utf8_decode_replace (utf8_encode_surrogatepass s @ bs)
     = concat (map roundtrip1 s) @ utf8_decode_replace bs"
  by (induction s) (simp_all add: utf8_encode_surrogatepass_def roundtrip_encode1)

lemma decode_unicode_escapes_eq:
  "decode_unicode_escapes s = concat (map roundtrip1 (re_sub s))"
  using roundtrip_encode [of "re_sub s" "[]"] by (simp add: decode_unicode_escapes_def)

lemma roundtrip1_ascii: "c < 128 \<Longrightarrow> roundtrip1 c = [c]"
  by (simp add: roundtrip1_def)

section \<open>Escapes\<close>

text \<open>
  No escape begins inside another one: its first character is a backslash, which is neither
  the letter u nor a hexadecimal digit. So a text is decoded in two independent halves at
  any backslash.
\<close>

lemma re_sub_other: "c \<noteq> 92 \<Longrightarrow> re_sub (c # cs) = c # re_sub cs"
  by (cases "c # cs" rule: re_sub.cases) (auto simp: is_escape_def)

lemma re_sub_escape:
  "is_escape b u h1 h2 h3 h4 \<Longrightarrow>
   re_sub (b # u # h1 # h2 # h3 # h4 # rest) = replace b u h1 h2 h3 h4 @ re_sub rest"
  by simp

lemma not_hex_92: "\<not> is_hex 92" and not_hex_117: "\<not> is_hex 117"
  by (simp_all add: is_hex_def)

lemma re_sub_not_escape:
  "(\<And>u h1 h2 h3 h4 rest. cs = u # h1 # h2 # h3 # h4 # rest \<Longrightarrow> \<not> is_escape c u h1 h2 h3 h4)
   \<Longrightarrow> re_sub (c # cs) = c # re_sub cs"
  by (cases "c # cs" rule: re_sub.cases) auto

lemma re_sub_append_backslash: "re_sub (xs @ 92 # rest) = re_sub xs @ re_sub (92 # rest)"
proof (induction xs rule: re_sub.induct)
  case (1 b u h1 h2 h3 h4 rest')
  then show ?case by simp
next
  case 3
  show ?case by simp
qed (subst re_sub_not_escape; simp add: is_escape_def not_hex_92)+

lemma re_sub_malformed: "hex4 ys = None \<Longrightarrow> re_sub (92 # 117 # ys) = 92 # 117 # re_sub ys"
  by (cases "92 # 117 # ys" rule: re_sub.cases)
     (auto simp: is_escape_def hex4_def re_sub_other split: if_splits)

lemma hex_val_less: "is_hex h \<Longrightarrow> hex_val h < 16"
  by (auto simp: is_hex_def hex_val_def)

lemma int16_less:
  assumes "is_hex h1" "is_hex h2" "is_hex h3" "is_hex h4"
  shows "int16 h1 h2 h3 h4 < 0x10000"
proof -
  have "a < 16 \<Longrightarrow> b < 16 \<Longrightarrow> c < 16 \<Longrightarrow> d < 16 \<Longrightarrow> ((a * 16 + b) * 16 + c) * 16 + d < 65536"
    for a b c d :: nat by simp
  then show ?thesis using assms [THEN hex_val_less] by (simp add: int16_def)
qed

lemma decode_append_backslash:
  "decode_unicode_escapes (xs @ 92 # rest)
     = decode_unicode_escapes xs @ decode_unicode_escapes (92 # rest)"
  by (simp add: decode_unicode_escapes_eq re_sub_append_backslash)

lemma decode_escape:
  assumes "is_hex h1" "is_hex h2" "is_hex h3" "is_hex h4"
  shows "decode_unicode_escapes (92 # 117 # h1 # h2 # h3 # h4 # ys)
     = (if 0xD800 \<le> int16 h1 h2 h3 h4 \<and> int16 h1 h2 h3 h4 \<le> 0xDFFF
        then [92, 117, h1, h2, h3, h4] else [int16 h1 h2 h3 h4]) @ decode_unicode_escapes ys"
proof -
  have esc: "is_escape 92 117 h1 h2 h3 h4" using assms by (simp add: is_escape_def)
  have h: "h1 < 128" "h2 < 128" "h3 < 128" "h4 < 128"
    using assms by (auto simp: is_hex_def)
  have r: "re_sub (92 # 117 # h1 # h2 # h3 # h4 # ys) = replace 92 117 h1 h2 h3 h4 @ re_sub ys"
    by (rule re_sub_escape [OF esc])
  have cp: "roundtrip1 (int16 h1 h2 h3 h4)
      = (if 0xD800 \<le> int16 h1 h2 h3 h4 \<and> int16 h1 h2 h3 h4 \<le> 0xDFFF
         then [0xFFFD, 0xFFFD, 0xFFFD] else [int16 h1 h2 h3 h4])"
    using int16_less [OF assms] by (simp add: roundtrip1_def)
  show ?thesis
    unfolding decode_unicode_escapes_eq r
    using h by (simp add: replace_def Let_def roundtrip1_ascii cp)
qed

lemma decode_malformed:
  "hex4 ys = None \<Longrightarrow>
   decode_unicode_escapes (92 # 117 # ys) = 92 # 117 # decode_unicode_escapes ys"
  by (simp add: decode_unicode_escapes_eq re_sub_malformed roundtrip1_ascii)

lemma re_sub_Nil_iff: "re_sub s = [] \<longleftrightarrow> s = []"
  by (cases s rule: re_sub.cases) (auto simp: replace_def Let_def)

lemma decode_Nil_iff: "decode_unicode_escapes s = [] \<longleftrightarrow> s = []"
proof -
  have "roundtrip1 c \<noteq> []" for c by (simp add: roundtrip1_def)
  then show ?thesis
    by (auto simp: decode_unicode_escapes_eq re_sub_Nil_iff)
qed

text \<open>
  Claim C6. In any text, an escape of four hexadecimal digits whose code point is not a
  surrogate is replaced by that code point; an escape whose code point is a surrogate
  (\<open>0xD800\<close> to \<open>0xDFFF\<close>) stays as its six characters; and a backslash and u that four
  hexadecimal digits do not follow stay as they are. In each case the text before and the
  text after are decoded as they would be alone.
\<close>

theorem decode_resolves_escapes:
  "(is_hex h1 \<and> is_hex h2 \<and> is_hex h3 \<and> is_hex h4
      \<and> \<not> (0xD800 \<le> int16 h1 h2 h3 h4 \<and> int16 h1 h2 h3 h4 \<le> 0xDFFF) \<longrightarrow>
      decode_unicode_escapes (xs @ [92, 117, h1, h2, h3, h4] @ ys)
        = decode_unicode_escapes xs @ [int16 h1 h2 h3 h4] @ decode_unicode_escapes ys)
   \<and> (is_hex h1 \<and> is_hex h2 \<and> is_hex h3 \<and> is_hex h4
      \<and> 0xD800 \<le> int16 h1 h2 h3 h4 \<and> int16 h1 h2 h3 h4 \<le> 0xDFFF \<longrightarrow>
      decode_unicode_escapes (xs @ [92, 117, h1, h2, h3, h4] @ ys)
        = decode_unicode_escapes xs @ [92, 117, h1, h2, h3, h4] @ decode_unicode_escapes ys)
   \<and> (hex4 ys = None \<longrightarrow>
      decode_unicode_escapes (xs @ [92, 117] @ ys)
        = decode_unicode_escapes xs @ [92, 117] @ decode_unicode_escapes ys)"
  by (simp add: decode_append_backslash decode_escape decode_malformed)

text \<open>
  Rules for evaluating the functions on concrete texts and directories.
\<close>

lemmas fs_evals = get_transcript_list_def glob_txt_def suffix_to_prefix TRANSCRIPTS_DIR_def
  glob_path_def path_name_def sorted_reverse_def get_current_transcript_def open_read_def
  resolve_def truediv_def posix_str_def posix_root_def
  read_transcript_def decode_unicode_escapes_eq roundtrip1_def is_escape_def is_hex_def
  replace_def int16_def hex_val_def slice_from_def search_transcripts_def given_def arg_text_def
  kb_text_def print_results_def deliver_def ascii_def Let_def

lemmas evals = extract_messages_def human_marker_def assistant_marker_def ascii_def try_body_def
  re_search_array_def json_loads_def for_items_def dict_get_def strip_def is_space_def lower_def
  ascii_lower_def scan_literal_def scan_number_def is_json_space_def string_item_def
  simple_escape_def hex4_def low_escape_def is_digit_def digits_val_def max_depth_def
  too_many_digits_def Let_def

text \<open>
  The claim on three texts: \<^verbatim>\<open>a\u00e9b\<close> becomes a, U+00E9, b; the surrogate escape of
  \<^verbatim>\<open>a\ud83db\<close> and the malformed one of \<^verbatim>\<open>a\u12G4\<close> stay.
\<close>

theorem decode_resolves_escapes_witness:
  "decode_unicode_escapes (97 # 92 # 117 # ascii ''00e9'' @ ascii ''b'') = [97, 233, 98]
   \<and> decode_unicode_escapes (97 # 92 # 117 # ascii ''d83d'' @ ascii ''b'')
       = 97 # 92 # 117 # ascii ''d83db''
   \<and> decode_unicode_escapes (97 # 92 # 117 # ascii ''12G4'') = 97 # 92 # 117 # ascii ''12G4''"
proof -
  have a: "decode_unicode_escapes [97] = [97]" by (simp add: fs_evals hex4_def)
  have b: "decode_unicode_escapes [98] = [98]" by (simp add: fs_evals hex4_def)
  have g: "decode_unicode_escapes [49, 50, 71, 52] = [49, 50, 71, 52]" by (simp add: fs_evals hex4_def)
  have h: "hex4 [49, 50, 71, 52] = None" by (simp add: fs_evals hex4_def)
  have i1: "int16 48 48 101 57 = 233" and i2: "int16 100 56 51 100 = 55357" by (simp_all add: fs_evals)
  have x: "is_hex 48" "is_hex 101" "is_hex 57" "is_hex 100" "is_hex 56" "is_hex 51"
    by (simp_all add: is_hex_def)
  from decode_resolves_escapes [of 48 48 101 57 "[97]" "[98]"]
  have t1: "decode_unicode_escapes ([97] @ [92, 117, 48, 48, 101, 57] @ [98]) = [97, 233, 98]"
    using x i1 a b by simp
  from decode_resolves_escapes [of 100 56 51 100 "[97]" "[98]"]
  have t2: "decode_unicode_escapes ([97] @ [92, 117, 100, 56, 51, 100] @ [98])
              = [97, 92, 117, 100, 56, 51, 100, 98]"
    using x i2 a b by simp
  from decode_resolves_escapes [of _ _ _ _ "[97]" "[49, 50, 71, 52]"]
  have t3: "decode_unicode_escapes ([97] @ [92, 117] @ [49, 50, 71, 52])
              = [97, 92, 117, 49, 50, 71, 52]"
    using h a g by simp
  from t1 t2 t3 show ?thesis by (simp add: ascii_def)
qed

section \<open>Reading and tailing\<close>







text \<open>
  Claim C10, as amended. With \<open>tail = 0\<close> the reader returns the whole decoded content, as
  it does with no \<open>tail\<close>; the result is then empty only when the file is empty.
\<close>

theorem tail_zero_returns_everything:
  assumes "open_read d p = Inr content"
  shows "read_transcript d p (Some 0) = Inr (decode_unicode_escapes content)
       \<and> read_transcript d p (Some 0) = read_transcript d p None
       \<and> (read_transcript d p (Some 0) = Inr [] \<longleftrightarrow> content = [])"
  using assms by (simp add: read_transcript_def Let_def decode_Nil_iff)

text \<open>
  A file of two lines read with \<open>tail = 0\<close>.
\<close>

theorem tail_zero_returns_everything_witness:
  "open_read
     \<lparr>entries = [\<lparr>entry_name = ascii ''t.txt'', st_size = 3, st_mtime_iso = ascii ''2025-01-01T00:00:00'',
       entry_text = [97, 10, 98]\<rparr>],
      elsewhere = \<lambda>p. None\<rparr> (ascii ''/mnt/transcripts/t.txt'') = Inr [97, 10, 98]
   \<and> read_transcript
     \<lparr>entries = [\<lparr>entry_name = ascii ''t.txt'', st_size = 3, st_mtime_iso = ascii ''2025-01-01T00:00:00'',
       entry_text = [97, 10, 98]\<rparr>],
      elsewhere = \<lambda>p. None\<rparr> (ascii ''/mnt/transcripts/t.txt'') (Some 0)
     = Inr [97, 10, 98]"
proof -
  let ?d = "\<lparr>entries = [\<lparr>entry_name = ascii ''t.txt'', st_size = 3,
              st_mtime_iso = ascii ''2025-01-01T00:00:00'', entry_text = [97, 10, 98]\<rparr>],
      elsewhere = \<lambda>p. None\<rparr>"
  have o: "open_read ?d (ascii ''/mnt/transcripts/t.txt'') = Inr [97, 10, 98]" by (simp add: fs_evals hex4_def)
  have c: "decode_unicode_escapes [97, 10, 98] = [97, 10, 98]" by (simp add: fs_evals hex4_def)
  from tail_zero_returns_everything [OF o] c o show ?thesis by simp
qed

text \<open>
  Claim C10 as stated, that only an empty file gives an empty tail, fails: the last line
  of a file that ends in a line break is empty, and a negative \<open>tail\<close> on a file of one
  line leaves no line.
\<close>

theorem empty_tail_of_nonempty_file:
  "read_transcript
     \<lparr>entries = [\<lparr>entry_name = ascii ''t.txt'', st_size = 2, st_mtime_iso = ascii ''2025-01-01T00:00:00'',
       entry_text = [97, 10]\<rparr>],
      elsewhere = \<lambda>p. None\<rparr> (ascii ''/mnt/transcripts/t.txt'') (Some 1) = Inr []
   \<and> read_transcript
     \<lparr>entries = [\<lparr>entry_name = ascii ''t.txt'', st_size = 1, st_mtime_iso = ascii ''2025-01-01T00:00:00'',
       entry_text = [97]\<rparr>],
      elsewhere = \<lambda>p. None\<rparr> (ascii ''/mnt/transcripts/t.txt'') (Some (- 1)) = Inr []"
  by (simp add: fs_evals hex4_def)

section \<open>Listing and the current transcript\<close>

lemma collect_transcripts_names:
  "name ` set (collect_transcripts fs) = entry_name ` set fs - {ascii ''journal.txt''}"
  by (induction fs) auto

lemma collect_transcripts_entry:
  "t \<in> set (collect_transcripts fs) \<Longrightarrow>
   \<exists>f\<in>set fs. name t = entry_name f \<and> path t = glob_path TRANSCRIPTS_DIR (entry_name f)"
  by (induction fs) (auto split: if_splits)

lemma listed_entry:
  "t \<in> set (get_transcript_list d) \<Longrightarrow>
   \<exists>f\<in>set (entries d). name t = entry_name f
      \<and> path t = glob_path TRANSCRIPTS_DIR (entry_name f)"
  by (auto simp: get_transcript_list_def glob_txt_def dest!: collect_transcripts_entry)

text \<open>
  Claim C8. Whatever the files of the transcript directory are, no entry of the listing
  has the reserved name \<^verbatim>\<open>journal.txt\<close>, also when a file of that name is there.
\<close>

theorem listing_excludes_journal:
  "ascii ''journal.txt'' \<notin> name ` set (get_transcript_list d)"
  by (simp add: get_transcript_list_def collect_transcripts_names)

text \<open>
  A directory that holds \<^verbatim>\<open>journal.txt\<close> and one transcript.
\<close>

theorem listing_excludes_journal_witness:
  "ascii ''journal.txt'' \<notin> name ` set (get_transcript_list
     \<lparr>entries = [\<lparr>entry_name = ascii ''journal.txt'', st_size = 3,
       st_mtime_iso = ascii ''2025-01-01T00:00:00'', entry_text = ascii ''log''\<rparr>,
      \<lparr>entry_name = ascii ''a.txt'', st_size = 3, st_mtime_iso = ascii ''2025-01-02T00:00:00'',
       entry_text = ascii ''one''\<rparr>],
      elsewhere = \<lambda>p. None\<rparr>)
   \<and> get_transcript_list
     \<lparr>entries = [\<lparr>entry_name = ascii ''journal.txt'', st_size = 3,
       st_mtime_iso = ascii ''2025-01-01T00:00:00'', entry_text = ascii ''log''\<rparr>,
      \<lparr>entry_name = ascii ''a.txt'', st_size = 3, st_mtime_iso = ascii ''2025-01-02T00:00:00'',
       entry_text = ascii ''one''\<rparr>],
      elsewhere = \<lambda>p. None\<rparr>
   = [\<lparr>name = ascii ''a.txt'', size_bytes = 3, modified = ascii ''2025-01-02T00:00:00'',
       path = ascii ''/mnt/transcripts/a.txt''\<rparr>]"
  using listing_excludes_journal
    [of "\<lparr>entries = [\<lparr>entry_name = ascii ''journal.txt'', st_size = 3,
            st_mtime_iso = ascii ''2025-01-01T00:00:00'', entry_text = ascii ''log''\<rparr>,
          \<lparr>entry_name = ascii ''a.txt'', st_size = 3,
            st_mtime_iso = ascii ''2025-01-02T00:00:00'', entry_text = ascii ''one''\<rparr>],
      elsewhere = \<lambda>p. None\<rparr>"]
  by (simp add: fs_evals)

lemma sorted_last_greatest:
  "sorted (map k ys) \<Longrightarrow> u \<in> set ys \<Longrightarrow> k u \<le> k (last ys)"
proof (induction ys)
  case Nil
  then show ?case by simp
next
  case (Cons y ys)
  show ?case
  proof (cases "ys = []")
    case True
    with Cons.prems show ?thesis by simp
  next
    case False
    then have l: "last ys \<in> set ys" by simp
    from Cons.prems(1) have s: "sorted (map k ys)" and le: "\<forall>z\<in>set ys. k y \<le> k z" by auto
    show ?thesis
    proof (cases "u = y")
      case True
      with le l False show ?thesis by simp
    next
      case False
      with Cons.prems(2) have "u \<in> set ys" by simp
      with Cons.IH s \<open>ys \<noteq> []\<close> show ?thesis by simp
    qed
  qed
qed

lemma hd_sorted_reverse:
  assumes "xs \<noteq> []"
  shows "hd (sorted_reverse k xs) \<in> set xs"
    and "u \<in> set xs \<Longrightarrow> k u \<le> k (hd (sorted_reverse k xs))"
proof -
  let ?ys = "sort_key k (rev xs)"
  have ne: "?ys \<noteq> []" using assms by (metis length_0_conv length_rev length_sort)
  have h: "hd (sorted_reverse k xs) = last ?ys" using ne by (simp add: sorted_reverse_def hd_rev)
  have "last ?ys \<in> set ?ys" using ne by (rule last_in_set)
  then show "hd (sorted_reverse k xs) \<in> set xs" unfolding h by simp
  assume "u \<in> set xs"
  then have "u \<in> set ?ys" by simp
  then have "k u \<le> k (last ?ys)" by (intro sorted_last_greatest) simp_all
  then show "k u \<le> k (hd (sorted_reverse k xs))" by (simp add: h)
qed

lemma path_name_join: "47 \<notin> set n \<Longrightarrow> path_name (glob_path dir n) = n"
proof -
  assume a: "47 \<notin> set n"
  then have "takeWhile (\<lambda>c. c \<noteq> 47) (rev n @ 47 # rev dir) = rev n"
    by (intro takeWhile_tail [THEN trans] takeWhile_eq_all_conv [THEN iffD2] ) auto
  then show ?thesis by (simp add: path_name_def glob_path_def)
qed

lemma open_read_listed:
  "f \<in> set (entries d) \<Longrightarrow>
   \<exists>content. open_read d (glob_path TRANSCRIPTS_DIR (entry_name f)) = Inr content"
  by (auto simp: open_read_def resolve_def find_None_iff split: option.splits)

lemma read_transcript_ok:
  "open_read d p = Inr content \<Longrightarrow> \<exists>result. read_transcript d p tail = Inr result"
  by (auto simp: read_transcript_def Let_def split: option.splits)

lemma deliver_plain:
  "\<not> arg_messages a \<Longrightarrow> \<not> given (arg_output a) \<Longrightarrow>
   deliver ucd lim a err result
     = Inr \<lparr>stdout = (if result = [] then [] else [result]), stderr = err, exit_status = 0,
            written = None\<rparr>"
  by (simp add: deliver_def)

text \<open>
  Claim C1, as amended. When the listing is not empty, the current transcript is the
  entry that comes first when the names are sorted in descending order: no listed name is
  greater than its name, so it is the transcript whose name is last in the lexicographic
  order. In default mode the program reads that file, writes its name to the error
  stream and prints its decoded content, when that is not empty, on standard output.
  File names hold no slash.
\<close>

theorem current_is_greatest_name:
  assumes "get_transcript_list d \<noteq> []" and "\<forall>f\<in>set (entries d). 47 \<notin> set (entry_name f)"
    and "no_flags a"
  shows "\<exists>t\<in>set (get_transcript_list d).
           (\<forall>u\<in>set (get_transcript_list d). name u \<le> name t)
           \<and> t = hd (sorted_reverse name (get_transcript_list d))
           \<and> get_current_transcript d = Some (path t)
           \<and> (\<exists>result. read_transcript d (path t) (arg_tail a) = Inr result
                \<and> main ucd lim d a
                    = Inr \<lparr>stdout = (if result = [] then [] else [result]),
                           stderr = [ascii ''Current: '' @ name t @ [10]],
                           exit_status = 0, written = None\<rparr>)"
proof -
  let ?ts = "get_transcript_list d"
  let ?t = "hd (sorted_reverse name ?ts)"
  have mem: "?t \<in> set ?ts" and top: "\<forall>u\<in>set ?ts. name u \<le> name ?t"
    using hd_sorted_reverse [OF assms(1), where k = name] by auto
  have cur: "get_current_transcript d = Some (path ?t)"
    using assms(1) by (simp add: get_current_transcript_def Let_def)
  from listed_entry [OF mem] obtain f where f: "f \<in> set (entries d)" "name ?t = entry_name f"
    "path ?t = glob_path TRANSCRIPTS_DIR (entry_name f)" by auto
  from open_read_listed [OF f(1)] f(3) obtain content where "open_read d (path ?t) = Inr content"
    by auto
  from read_transcript_ok [OF this] obtain result
    where res: "read_transcript d (path ?t) (arg_tail a) = Inr result" by auto
  have pn: "path_name (path ?t) = name ?t"
    using f assms(2) by (simp add: path_name_join)
  have "main ucd lim d a
          = Inr \<lparr>stdout = (if result = [] then [] else [result]),
                 stderr = [ascii ''Current: '' @ name ?t @ [10]],
                 exit_status = 0, written = None\<rparr>"
    using assms(3) cur res pn by (simp add: main_def no_flags_def deliver_plain)
  with mem top cur res show ?thesis by blast
qed

text \<open>
  A directory with \<^verbatim>\<open>a.txt\<close> and \<^verbatim>\<open>b.txt\<close>: default mode prints the second.
\<close>

theorem current_is_greatest_name_witness:
  "main (\<lambda>s. s) \<lparr>spare_depth = 900, max_str_digits = 4300\<rparr>
     \<lparr>entries = [\<lparr>entry_name = ascii ''a.txt'', st_size = 3, st_mtime_iso = ascii ''2025-01-01T00:00:00'',
       entry_text = ascii ''one''\<rparr>,
      \<lparr>entry_name = ascii ''b.txt'', st_size = 3, st_mtime_iso = ascii ''2025-01-02T00:00:00'',
       entry_text = ascii ''two''\<rparr>],
      elsewhere = \<lambda>p. None\<rparr>
     \<lparr>arg_list = False, arg_all = False, arg_file = None, arg_search = None, arg_tail = None,
      arg_messages = False, arg_output = None, arg_truncate = None\<rparr>
   = Inr \<lparr>stdout = [ascii ''two''], stderr = [ascii ''Current: b.txt'' @ [10]],
          exit_status = 0, written = None\<rparr>"
proof -
  let ?d = "\<lparr>entries = [\<lparr>entry_name = ascii ''a.txt'', st_size = 3,
              st_mtime_iso = ascii ''2025-01-01T00:00:00'', entry_text = ascii ''one''\<rparr>,
            \<lparr>entry_name = ascii ''b.txt'', st_size = 3,
              st_mtime_iso = ascii ''2025-01-02T00:00:00'', entry_text = ascii ''two''\<rparr>],
      elsewhere = \<lambda>p. None\<rparr>"
  let ?a = "\<lparr>arg_list = False, arg_all = False, arg_file = None, arg_search = None,
             arg_tail = None, arg_messages = False, arg_output = None, arg_truncate = None\<rparr>"
  have l: "get_transcript_list ?d \<noteq> []" by (simp add: fs_evals)
  have n: "\<forall>f\<in>set (entries ?d). 47 \<notin> set (entry_name f)" by (simp add: ascii_def)
  have a: "no_flags ?a" by (simp add: no_flags_def given_def arg_text_def)
  have h: "hd (sorted_reverse name (get_transcript_list ?d))
             = \<lparr>name = ascii ''b.txt'', size_bytes = 3, modified = ascii ''2025-01-02T00:00:00'',
                path = ascii ''/mnt/transcripts/b.txt''\<rparr>"
    by (simp add: fs_evals)
  have r: "read_transcript ?d (ascii ''/mnt/transcripts/b.txt'') None = Inr (ascii ''two'')"
    by (simp add: fs_evals)
  from current_is_greatest_name [OF l n a, of "\<lambda>s. s" "\<lparr>spare_depth = 900, max_str_digits = 4300\<rparr>"]
  obtain t result where
    t: "t = hd (sorted_reverse name (get_transcript_list ?d))" and
    res: "read_transcript ?d (path t) (arg_tail ?a) = Inr result" and
    m: "main (\<lambda>s. s) \<lparr>spare_depth = 900, max_str_digits = 4300\<rparr> ?d ?a
       = Inr \<lparr>stdout = (if result = [] then [] else [result]),
              stderr = [ascii ''Current: '' @ name t @ [10]], exit_status = 0, written = None\<rparr>"
    by blast
  from t h have pt: "path t = ascii ''/mnt/transcripts/b.txt''" and nt: "name t = ascii ''b.txt''"
    by simp_all
  from res r pt have "result = ascii ''two''" by simp
  with m nt show ?thesis by (simp add: ascii_def)
qed

text \<open>
  Claim C1 as stated fails: of \<^verbatim>\<open>a.txt\<close> and \<^verbatim>\<open>b.txt\<close> the program selects
  \<^verbatim>\<open>b.txt\<close>, while the name that sorts last in descending order is \<^verbatim>\<open>a.txt\<close>.
\<close>

theorem current_is_not_last_of_descending:
  "get_current_transcript
     \<lparr>entries = [\<lparr>entry_name = ascii ''a.txt'', st_size = 3, st_mtime_iso = ascii ''2025-01-01T00:00:00'',
       entry_text = ascii ''one''\<rparr>,
      \<lparr>entry_name = ascii ''b.txt'', st_size = 3, st_mtime_iso = ascii ''2025-01-02T00:00:00'',
       entry_text = ascii ''two''\<rparr>],
      elsewhere = \<lambda>p. None\<rparr>
     = Some (ascii ''/mnt/transcripts/b.txt'')
   \<and> path (last (sorted_reverse name (get_transcript_list
     \<lparr>entries = [\<lparr>entry_name = ascii ''a.txt'', st_size = 3, st_mtime_iso = ascii ''2025-01-01T00:00:00'',
       entry_text = ascii ''one''\<rparr>,
      \<lparr>entry_name = ascii ''b.txt'', st_size = 3, st_mtime_iso = ascii ''2025-01-02T00:00:00'',
       entry_text = ascii ''two''\<rparr>],
      elsewhere = \<lambda>p. None\<rparr>)))
     = ascii ''/mnt/transcripts/a.txt''"
  by (simp add: fs_evals)

section \<open>Search results\<close>

lemma py_in_sublist: "py_in q s \<longleftrightarrow> sublist q s"
  by (induction s) (simp_all add: sublist_Cons_right)

lemma occurrence_in_a_line:
  "10 \<notin> set q \<Longrightarrow> \<exists>l\<in>set (split_nl (ps @ q @ ss)). sublist q l"
proof (induction ps)
  case Nil
  have "hd (split_nl (q @ ss)) \<in> set (split_nl (q @ ss))"
    using split_nl_not_Nil by simp
  moreover have "sublist q (hd (split_nl (q @ ss)))"
    using Nil by (simp add: hd_split_nl_append)
  ultimately show ?case by auto
next
  case (Cons c ps)
  then obtain l where l: "l \<in> set (split_nl (ps @ q @ ss))" "sublist q l" by auto
  obtain l0 ls where eq: "split_nl (ps @ q @ ss) = l0 # ls"
    using split_nl_not_Nil [of "ps @ q @ ss"] by (cases "split_nl (ps @ q @ ss)") auto
  show ?case
  proof (cases "c = 10")
    case True
    with l show ?thesis by auto
  next
    case False
    show ?thesis
    proof (cases "l = l0")
      case True
      with l(2) have "sublist q (c # l0)" by (simp add: sublist_Cons_right)
      with False eq show ?thesis by simp
    next
      case False
      with l(1) eq have "l \<in> set ls" by simp
      with \<open>c \<noteq> 10\<close> eq l(2) show ?thesis by auto
    qed
  qed
qed

lemma match_lines_not_Nil:
  "\<exists>l\<in>set ls. py_in q (lower ucd l) \<Longrightarrow> match_lines ucd q i ls \<noteq> []"
  by (induction ls arbitrary: i) auto

lemma search_loop_entry:
  "search_loop ucd d q ts = Inr results \<Longrightarrow> r \<in> set results \<Longrightarrow>
   \<exists>t\<in>set ts. \<exists>content. file_name r = name t
      \<and> read_transcript d (path t) None = Inr content
      \<and> py_in q (lower ucd content)
      \<and> matches r = take 10 (match_lines ucd q 0 (split_nl content))"
proof (induction ts arbitrary: results)
  case Nil
  then show ?case by simp
next
  case (Cons t ts)
  from Cons.prems(1) obtain content rest where
    c: "read_transcript d (path t) None = Inr content" and
    rest: "search_loop ucd d q ts = Inr rest"
    by (auto split: sum.splits)
  show ?case
  proof (cases "r \<in> set rest")
    case True
    from Cons.IH [OF rest True] show ?thesis by auto
  next
    case False
    with Cons.prems c rest have "py_in q (lower ucd content)"
      and "r = \<lparr>file_name = name t,
                 matches = take 10 (match_lines ucd q 0 (split_nl content))\<rparr>"
      by (auto split: if_splits)
    with c show ?thesis by auto
  qed
qed

lemma split_nl_ascii_lower:
  "split_nl (map ascii_lower s) = map (map ascii_lower) (split_nl s)"
proof (induction s)
  case Nil
  show ?case by simp
next
  case (Cons c cs)
  have "ascii_lower c = 10 \<longleftrightarrow> c = 10" by (auto simp: ascii_lower_def)
  moreover obtain l0 ls where "split_nl cs = l0 # ls"
    using split_nl_not_Nil [of cs] by (cases "split_nl cs") auto
  ultimately show ?case using Cons by auto
qed

lemma lower_ascii_lower: "lower (map ascii_lower) s = map ascii_lower s"
  by (simp add: lower_def)

text \<open>
  Claim C4, as amended. Lowercasing works line by line: it neither makes nor removes a
  line break and does not look across one. For every query that holds no line break and
  every directory, each entry of the search results has a matching line in its list, and
  is the entry of a listed transcript one of whose lines holds the query when both are
  lowercased.
\<close>

theorem result_has_matching_line:
  assumes "\<forall>s. split_nl (lower ucd s) = map (lower ucd) (split_nl s)"
    and "10 \<notin> set query"
    and "search_transcripts ucd d query = Inr results" and "r \<in> set results"
  shows "matches r \<noteq> []
       \<and> (\<exists>t\<in>set (get_transcript_list d). \<exists>content. file_name r = name t
            \<and> read_transcript d (path t) None = Inr content
            \<and> (\<exists>l\<in>set (split_nl content). py_in (lower ucd query) (lower ucd l)))"
proof -
  let ?q = "lower ucd query"
  have "split_nl ?q = [?q]" using assms(1,2) by (simp add: split_nl_single)
  then have nq: "10 \<notin> set ?q" by (rule split_nl_single_iff)
  from assms(3) have "search_loop ucd d ?q (get_transcript_list d) = Inr results"
    by (simp add: search_transcripts_def Let_def)
  from search_loop_entry [OF this assms(4)] obtain t content where
    t: "t \<in> set (get_transcript_list d)" "file_name r = name t"
      "read_transcript d (path t) None = Inr content" and
    occ: "py_in ?q (lower ucd content)" and
    m: "matches r = take 10 (match_lines ucd ?q 0 (split_nl content))" by blast
  from occ obtain ps ss where "lower ucd content = ps @ ?q @ ss"
    by (auto simp: py_in_sublist sublist_def)
  with occurrence_in_a_line [OF nq, of ps ss]
  obtain l' where "l' \<in> set (split_nl (lower ucd content))" "sublist ?q l'" by auto
  with assms(1) obtain l where l: "l \<in> set (split_nl content)" "py_in ?q (lower ucd l)"
    by (auto simp: py_in_sublist)
  then have "match_lines ucd ?q 0 (split_nl content) \<noteq> []"
    by (intro match_lines_not_Nil) auto
  with m have "matches r \<noteq> []" by simp
  with t l show ?thesis by blast
qed

text \<open>
  A search for \<^verbatim>\<open>hELLO\<close> in a file whose second line is \<^verbatim>\<open>Hello\<close>, with the
  lowercasing of ASCII letters.
\<close>

theorem result_has_matching_line_witness:
  "search_transcripts (map ascii_lower)
     \<lparr>entries = [\<lparr>entry_name = ascii ''a.txt'', st_size = 7, st_mtime_iso = ascii ''2025-01-01T00:00:00'',
       entry_text = ascii ''x'' @ 10 # ascii ''Hello''\<rparr>],
      elsewhere = \<lambda>p. None\<rparr> (ascii ''hELLO'')
   = Inr [\<lparr>file_name = ascii ''a.txt'',
           matches = [\<lparr>line_no = 2, line_text = ascii ''Hello''\<rparr>]\<rparr>]
   \<and> matches \<lparr>file_name = ascii ''a.txt'',
           matches = [\<lparr>line_no = 2, line_text = ascii ''Hello''\<rparr>]\<rparr> \<noteq> []"
proof -
  let ?d = "\<lparr>entries = [\<lparr>entry_name = ascii ''a.txt'', st_size = 7,
              st_mtime_iso = ascii ''2025-01-01T00:00:00'',
              entry_text = ascii ''x'' @ 10 # ascii ''Hello''\<rparr>],
      elsewhere = \<lambda>p. None\<rparr>"
  let ?r = "\<lparr>file_name = ascii ''a.txt'',
             matches = [\<lparr>line_no = 2, line_text = ascii ''Hello''\<rparr>]\<rparr>"
  have lw: "\<forall>s. split_nl (lower (map ascii_lower) s) = map (lower (map ascii_lower)) (split_nl s)"
    by (simp add: lower_ascii_lower [abs_def] split_nl_ascii_lower)
  have nq: "10 \<notin> set (ascii ''hELLO'')" by (simp add: ascii_def)
  have sr: "search_transcripts (map ascii_lower) ?d (ascii ''hELLO'') = Inr [?r]"
    by (simp add: fs_evals lower_ascii_lower ascii_lower_def)
  from result_has_matching_line [OF lw nq sr, of ?r] have "matches ?r \<noteq> []" by simp
  with sr show ?thesis by simp
qed

text \<open>
  Claim C4 as stated fails for a query with a line break: the file is tested as a whole,
  its lines one by one. The file \<^verbatim>\<open>a\nb\<close> is a result for the query \<^verbatim>\<open>a\nb\<close>, with
  no matching line.
\<close>

theorem result_with_no_matching_line:
  "search_transcripts (\<lambda>s. s)
     \<lparr>entries = [\<lparr>entry_name = ascii ''a.txt'', st_size = 3, st_mtime_iso = ascii ''2025-01-01T00:00:00'',
       entry_text = [97, 10, 98]\<rparr>],
      elsewhere = \<lambda>p. None\<rparr> [97, 10, 98]
   = Inr [\<lparr>file_name = ascii ''a.txt'', matches = []\<rparr>]"
  by (simp add: fs_evals lower_def)

section \<open>Message extraction\<close>

text \<open>
  Claim C2. On the text of a line break, the line \<^verbatim>\<open>Human:\<close>, the line
  \<^verbatim>\<open>Content:\<close>, and a JSON list of one object of type \<^verbatim>\<open>text\<close> and text
  \<^verbatim>\<open>hi\<close> closed by a line of one bracket, extraction yields exactly one message, of
  role \<^verbatim>\<open>human\<close> and text \<^verbatim>\<open>hi\<close>.
\<close>

theorem extraction_of_one_message:
  "extract_messages ucd lim
     (10 # ascii ''Human:'' @ 10 # ascii ''Content:'' @ 10 # ascii ''['' @ 10
      # ascii ''{\"type\":\"text\",\"text\":\"hi\"}'' @ 10 # ascii '']'' @ [10])
   = Inr [\<lparr>msg_role = ascii ''human'', msg_text = ascii ''hi''\<rparr>]"
  by (simp add: evals)

lemma extract_loop_skips:
  "malformed lim json_content \<Longrightarrow>
   extract_loop ucd lim (role # json_content # rest) messages = extract_loop ucd lim rest messages"
  by (auto simp: malformed_def try_body_def split: option.splits)

lemma extract_loop_without_malformed:
  "extract_loop ucd lim (without_malformed lim parts) messages = extract_loop ucd lim parts messages"
proof (induction parts arbitrary: messages rule: without_malformed.induct)
  case (1 lim role json_content rest)
  show ?case
  proof (cases "malformed lim json_content")
    case True
    with 1 show ?thesis by (simp add: extract_loop_skips del: extract_loop.simps)
  next
    case False
    with 1 show ?thesis by (auto split: sum.splits)
  qed
qed simp_all

text \<open>
  Claim C5, as amended. When the decoder rejects the fragment of a segment as malformed,
  with \<^verbatim>\<open>JSONDecodeError\<close>, the loop goes on to the remaining segments with the messages
  it had: the segment adds no message and raises no error. So, for every text, extraction
  gives what it gives on the parts without the malformed segments.
\<close>

theorem malformed_segment_is_skipped:
  "(malformed lim json_content \<longrightarrow>
      extract_loop ucd lim (role # json_content # rest) messages = extract_loop ucd lim rest messages)
   \<and> extract_messages ucd lim content
       = extract_loop ucd lim (without_malformed lim (tl (re_split content))) []"
  by (simp add: extract_loop_skips extract_messages_def extract_loop_without_malformed
      del: extract_loop.simps)

text \<open>
  A text with a human segment that does not parse and an assistant segment that does.
\<close>

theorem malformed_segment_is_skipped_witness:
  "malformed \<lparr>spare_depth = 900, max_str_digits = 4300\<rparr>
     (ascii ''['' @ 10 # ascii ''{bad'' @ 10 # ascii '']'' @ [10])
   \<and> extract_messages (\<lambda>s. s) \<lparr>spare_depth = 900, max_str_digits = 4300\<rparr>
       (10 # ascii ''Human:'' @ 10 # ascii ''Content:'' @ 10
        # ascii ''['' @ 10 # ascii ''{bad'' @ 10 # ascii '']'' @ [10]
        @ 10 # ascii ''Assistant:'' @ 10 # ascii ''Content:'' @ 10
        # ascii ''['' @ 10 # ascii ''{\"type\":\"text\",\"text\":\"ok\"}'' @ 10 # ascii '']'' @ [10])
     = Inr [\<lparr>msg_role = ascii ''assistant'', msg_text = ascii ''ok''\<rparr>]"
proof -
  let ?lim = "\<lparr>spare_depth = 900, max_str_digits = 4300\<rparr>"
  let ?bad = "ascii ''['' @ 10 # ascii ''{bad'' @ 10 # ascii '']'' @ [10]"
  let ?good = "ascii ''['' @ 10 # ascii ''{\"type\":\"text\",\"text\":\"ok\"}'' @ 10 # ascii '']'' @ [10]"
  let ?content = "10 # ascii ''Human:'' @ 10 # ascii ''Content:'' @ 10 # ?bad
        @ 10 # ascii ''Assistant:'' @ 10 # ascii ''Content:'' @ 10 # ?good"
  have f: "malformed ?lim ?bad" by (simp add: malformed_def evals)
  have s: "tl (re_split ?content) = [ascii ''Human'', ?bad, ascii ''Assistant'', ?good]"
    by (simp add: evals)
  have g: "\<not> malformed ?lim ?good" by (simp add: malformed_def evals)
  have r: "extract_loop (\<lambda>s. s) ?lim [ascii ''Assistant'', ?good] []
             = Inr [\<lparr>msg_role = ascii ''assistant'', msg_text = ascii ''ok''\<rparr>]"
    by (simp add: evals)
  have w: "without_malformed ?lim [ascii ''Human'', ?bad, ascii ''Assistant'', ?good]
             = [ascii ''Assistant'', ?good]"
    using f g by simp
  from malformed_segment_is_skipped [of ?lim ?bad "\<lambda>s. s" "ascii ''Human''" "[]" "[]" ?content]
  have "extract_messages (\<lambda>s. s) ?lim ?content
          = extract_loop (\<lambda>s. s) ?lim (without_malformed ?lim (tl (re_split ?content))) []"
    by (rule conjunct2)
  with s w r f show ?thesis by simp
qed

lemma lex_brackets: "lex (replicate n 91 @ cs) = replicate n LBracket @ lex cs"
  by (induction n) (simp_all add: is_json_space_def)

lemma run_too_deep:
  "length st \<le> max_depth lim \<Longrightarrow> max_depth lim < length st + n
   \<Longrightarrow> m = NeedValue \<or> m = ValueOrClose
   \<Longrightarrow> run lim (replicate n LBracket @ ts) (st, m) = Inl RecursionError"
proof (induction n arbitrary: st m)
  case 0
  then show ?case by simp
next
  case (Suc n)
  show ?case
  proof (cases "length st = max_depth lim")
    case True
    with Suc.prems(3) show ?thesis by auto
  next
    case False
    with Suc.prems have step: "step lim LBracket (st, m) = Inr (InArray [] # st, ValueOrClose)"
      by auto
    have "run lim (replicate n LBracket @ ts) (InArray [] # st, ValueOrClose)
            = Inl RecursionError"
      using Suc.prems False by (intro Suc.IH) auto
    with step show ?thesis by simp
  qed
qed

lemma json_loads_too_deep:
  "max_depth lim < n \<Longrightarrow> json_loads lim (replicate n 91 @ cs) = Inl RecursionError"
  using run_too_deep [of "[]" lim n NeedValue "lex cs"]
  by (simp add: json_loads_def lex_brackets)

lemma upto_close_brackets:
  "upto_close (replicate k 91 @ 10 # 93 # r) = Some (replicate k 91 @ [10, 93])"
proof (induction k)
  case 0
  show ?case by simp
next
  case (Suc k)
  then show ?case by (cases k) simp_all
qed

lemma re_search_array_brackets:
  "0 < n \<Longrightarrow> re_search_array (replicate n 91 @ 10 # 93 # r) = Some (replicate n 91 @ [10, 93])"
  by (cases n) (simp_all add: re_search_array_def upto_close_brackets)

lemma re_split_brackets:
  "re_split (replicate n 91 @ [10, 93, 10]) = [replicate n 91 @ [10, 93, 10]]"
  by (induction n) (simp_all add: evals)

text \<open>
  Claim C5 as stated fails: a fragment can fail to parse with an error that is not
  caught. Under the limits of a default interpreter (about 1000 nested values, 4300
  digits), the fragment of a human segment that opens 1100 lists is cut out by the search,
  the decoder raises \<^verbatim>\<open>RecursionError\<close> on it, and extraction ends in that error
  instead of skipping the segment.
\<close>

theorem deep_nesting_is_not_skipped:
  "re_search_array (replicate 1100 91 @ [10, 93, 10]) = Some (replicate 1100 91 @ [10, 93])
   \<and> json_loads \<lparr>spare_depth = 900, max_str_digits = 4300\<rparr> (replicate 1100 91 @ [10, 93])
       = Inl RecursionError
   \<and> \<not> malformed \<lparr>spare_depth = 900, max_str_digits = 4300\<rparr> (replicate 1100 91 @ [10, 93, 10])
   \<and> extract_messages (\<lambda>s. s) \<lparr>spare_depth = 900, max_str_digits = 4300\<rparr>
       (10 # ascii ''Human:'' @ 10 # ascii ''Content:'' @ 10 # replicate 1100 91 @ [10, 93, 10])
     = Inl RecursionError"
proof -
  let ?lim = "\<lparr>spare_depth = 900, max_str_digits = 4300\<rparr>"
  let ?seg = "replicate 1100 91 @ [10, 93, 10] :: pystr"
  have s: "re_search_array ?seg = Some (replicate 1100 91 @ [10, 93])"
    using re_search_array_brackets [of 1100 "[10]"] by simp
  have j: "json_loads ?lim (replicate 1100 91 @ [10, 93]) = Inl RecursionError"
    by (rule json_loads_too_deep) (simp add: max_depth_def)
  have m: "\<not> malformed ?lim ?seg" using s j by (simp add: malformed_def)
  have p: "tl (re_split (10 # ascii ''Human:'' @ 10 # ascii ''Content:'' @ 10 # ?seg))
             = [ascii ''Human'', ?seg]"
    using re_split_brackets [of 1100]
    by (simp add: human_marker_def assistant_marker_def ascii_def)
  have n: "?seg \<noteq> []" by simp
  have "extract_loop (\<lambda>s. s) ?lim [ascii ''Human'', ?seg] [] = Inl RecursionError"
    using s j n by (simp add: try_body_def ascii_def)
  with s j m p show ?thesis by (simp add: extract_messages_def)
qed

text \<open>
  Claim C9. Only the decoder's error is caught. The text of one human segment whose list
  holds the string \<^verbatim>\<open>x\<close> decodes to a list with that string as its element, and
  extraction ends in \<^verbatim>\<open>AttributeError\<close>, raised by \<^verbatim>\<open>item.get\<close>: extraction does
  not return a list of messages on every text.
\<close>

theorem non_object_element_raises:
  "json_loads lim (ascii ''['' @ 10 # ascii ''\"x\"'' @ 10 # ascii '']'')
     = Inr (JArray [JString (ascii ''x'')])
   \<and> extract_messages ucd lim
       (10 # ascii ''Human:'' @ 10 # ascii ''Content:'' @ 10 # ascii ''['' @ 10
        # ascii ''\"x\"'' @ 10 # ascii '']'' @ [10])
     = Inl AttributeError"
  by (simp add: evals)

section \<open>A missing file\<close>






end
